theory Spec2Isabelle
  imports Main
begin

section \<open>JavaScript values used by the contract\<close>

text \<open>
  Strings are byte lists (the UTF-8 form a \<open>Buffer\<close> holds). Numbers are the integers
  that JavaScript prints in plain decimal notation; \<open>num_string\<close> is that rendering,
  as string concatenation (\<open>'Paper ' + issuer + paperNumber\<close>) and \<open>JSON.stringify\<close>
  produce it.
\<close>

definition digit_char :: "nat \<Rightarrow> char" where
  "digit_char d = ''0123456789'' ! d"

fun nat_digits :: "nat \<Rightarrow> string" where
  "nat_digits n =
     (if n < 10 then [digit_char n] else nat_digits (n div 10) @ [digit_char (n mod 10)])"

declare nat_digits.simps [simp del]

definition num_string :: "int \<Rightarrow> string" where
  "num_string n = (if n < 0 then CHR ''-'' # nat_digits (nat (- n)) else nat_digits (nat n))"

text \<open>
  A property that was never assigned reads as \<open>undefined\<close>; it is \<open>None\<close> here, and
  string concatenation prints it as the word \<open>undefined\<close>.
\<close>

definition state_string :: "nat option \<Rightarrow> string" where
  "state_string s = (case s of None \<Rightarrow> ''undefined'' | Some n \<Rightarrow> num_string (int n))"

fun join :: "string \<Rightarrow> string list \<Rightarrow> string" where
  "join sep [] = []"
| "join sep [x] = x"
| "join sep (x # y # ys) = x @ sep @ join sep (y # ys)"

subsection \<open>JSON text as \<open>JSON.stringify\<close> writes it\<close>

datatype json =
    JNull
  | JBool bool
  | JNum int
  | JStr string
  | JArr "json list"
  | JObj "(string \<times> json) list"

definition hex_char :: "nat \<Rightarrow> char" where
  "hex_char d = ''0123456789abcdef'' ! d"

definition json_escape :: "char \<Rightarrow> string" where
  "json_escape c =
     (if c = CHR 0x22 then [CHR 0x5C, CHR 0x22]
      else if c = CHR 0x5C then [CHR 0x5C, CHR 0x5C]
      else if c = CHR 0x08 then [CHR 0x5C, CHR ''b'']
      else if c = CHR 0x0C then [CHR 0x5C, CHR ''f'']
      else if c = CHR 0x0A then [CHR 0x5C, CHR ''n'']
      else if c = CHR 0x0D then [CHR 0x5C, CHR ''r'']
      else if c = CHR 0x09 then [CHR 0x5C, CHR ''t'']
      else if (of_char c :: nat) < 32
        then [CHR 0x5C, CHR ''u'', CHR ''0'', CHR ''0'',
              hex_char (of_char c div 16), hex_char (of_char c mod 16)]
      else [c])"

definition json_quote :: "string \<Rightarrow> string" where
  "json_quote s = CHR 0x22 # concat (map json_escape s) @ [CHR 0x22]"

fun JSON_stringify :: "json \<Rightarrow> string" where
  "JSON_stringify JNull = ''null''"
| "JSON_stringify (JBool b) = (if b then ''true'' else ''false'')"
| "JSON_stringify (JNum n) = num_string n"
| "JSON_stringify (JStr s) = json_quote s"
| "JSON_stringify (JArr xs) = ''['' @ join '','' (map JSON_stringify xs) @ '']''"
| "JSON_stringify (JObj ms) =
     ''{'' @ join '','' (map (\<lambda>(k, v). json_quote k @ '':'' @ JSON_stringify v) ms) @ ''}''"

subsection \<open>JSON text as \<open>JSON.parse\<close> reads it\<close>

text \<open>
  A recursive-descent reader of JSON text: insignificant white space, the literals,
  integers, strings with their escapes, arrays and objects. \<open>None\<close> is the
  \<open>SyntaxError\<close>. Within this model numbers are integers, so a fraction or an exponent
  is not read; strings are bytes, so a \<open>\u\<close> escape is stored in UTF-8 (surrogate
  halves each on their own). The first argument of \<open>parse_value\<close> bounds the number of
  nested and successive values still to be read; \<open>JSON_parse\<close> starts it at the length of
  the text.
\<close>

definition is_ws :: "char \<Rightarrow> bool" where
  "is_ws c = (c = CHR 0x20 \<or> c = CHR 0x09 \<or> c = CHR 0x0A \<or> c = CHR 0x0D)"

definition skip_ws :: "string \<Rightarrow> string" where
  "skip_ws s = dropWhile is_ws s"

definition is_digit :: "char \<Rightarrow> bool" where
  "is_digit c = (c \<in> set ''0123456789'')"

definition digit_value :: "char \<Rightarrow> nat" where
  "digit_value c = of_char c - 48"

definition digits_value :: "string \<Rightarrow> nat" where
  "digits_value ds = foldl (\<lambda>a d. 10 * a + digit_value d) 0 ds"

definition parse_nat :: "string \<Rightarrow> (nat \<times> string) option" where
  "parse_nat s =
     (case s of
        [] \<Rightarrow> None
      | c # r \<Rightarrow>
          if c = CHR ''0'' then Some (0, r)
          else if is_digit c then Some (digits_value (takeWhile is_digit s), dropWhile is_digit s)
          else None)"

definition parse_number :: "string \<Rightarrow> (int \<times> string) option" where
  "parse_number s =
     (case (case s of
              [] \<Rightarrow> None
            | c # r \<Rightarrow>
                if c = CHR ''-'' then map_option (\<lambda>(n, t). (- int n, t)) (parse_nat r)
                else map_option (\<lambda>(n, t). (int n, t)) (parse_nat s)) of
        None \<Rightarrow> None
      | Some (n, t) \<Rightarrow>
          (case t of
             [] \<Rightarrow> Some (n, t)
           | c # u \<Rightarrow> if c \<in> set ''.eE'' then None else Some (n, t)))"

definition hex_value :: "char \<Rightarrow> nat option" where
  "hex_value c =
     (if is_digit c then Some (of_char c - 48)
      else if c \<in> set ''abcdef'' then Some (of_char c - 87)
      else if c \<in> set ''ABCDEF'' then Some (of_char c - 55)
      else None)"

definition unescape :: "char \<Rightarrow> char option" where
  "unescape e =
     (if e = CHR 0x22 then Some (CHR 0x22)
      else if e = CHR 0x5C then Some (CHR 0x5C)
      else if e = CHR ''/'' then Some (CHR ''/'')
      else if e = CHR ''b'' then Some (CHR 0x08)
      else if e = CHR ''f'' then Some (CHR 0x0C)
      else if e = CHR ''n'' then Some (CHR 0x0A)
      else if e = CHR ''r'' then Some (CHR 0x0D)
      else if e = CHR ''t'' then Some (CHR 0x09)
      else None)"

definition utf8 :: "nat \<Rightarrow> string" where
  "utf8 n =
     (if n < 128 then [char_of n]
      else if n < 2048 then [char_of (192 + n div 64), char_of (128 + n mod 64)]
      else [char_of (224 + n div 4096), char_of (128 + n div 64 mod 64), char_of (128 + n mod 64)])"

fun parse_chars :: "string \<Rightarrow> (string \<times> string) option" where
  "parse_chars [] = None"
| "parse_chars (c # r) =
     (if c = CHR 0x22 then Some ([], r)
      else if c = CHR 0x5C then
        (case r of
           [] \<Rightarrow> None
         | e # r1 \<Rightarrow>
             if e = CHR ''u'' then
               (case r1 of
                  a # b # x # y # r2 \<Rightarrow>
                    (case (hex_value a, hex_value b, hex_value x, hex_value y) of
                       (Some h3, Some h2, Some h1, Some h0) \<Rightarrow>
                         map_option (\<lambda>(s, t). (utf8 (4096 * h3 + 256 * h2 + 16 * h1 + h0) @ s, t))
                           (parse_chars r2)
                     | _ \<Rightarrow> None)
                | _ \<Rightarrow> None)
             else
               (case unescape e of
                  None \<Rightarrow> None
                | Some ch \<Rightarrow> map_option (\<lambda>(s, t). (ch # s, t)) (parse_chars r1)))
      else if (of_char c :: nat) < 32 then None
      else map_option (\<lambda>(s, t). (c # s, t)) (parse_chars r))"

fun parse_value :: "nat \<Rightarrow> string \<Rightarrow> (json \<times> string) option"
  and parse_elements :: "nat \<Rightarrow> string \<Rightarrow> (json list \<times> string) option"
  and parse_members :: "nat \<Rightarrow> string \<Rightarrow> ((string \<times> json) list \<times> string) option" where
  "parse_value 0 s = None"
| "parse_value (Suc f) s =
     (case skip_ws s of
        [] \<Rightarrow> None
      | c # r \<Rightarrow>
          if c = CHR ''{'' then
            (case skip_ws r of
               [] \<Rightarrow> None
             | d # t \<Rightarrow>
                 if d = CHR ''}'' then Some (JObj [], t)
                 else map_option (\<lambda>(ms, u). (JObj ms, u)) (parse_members f r))
          else if c = CHR ''['' then
            (case skip_ws r of
               [] \<Rightarrow> None
             | d # t \<Rightarrow>
                 if d = CHR '']'' then Some (JArr [], t)
                 else map_option (\<lambda>(vs, u). (JArr vs, u)) (parse_elements f r))
          else if c = CHR 0x22 then map_option (\<lambda>(x, u). (JStr x, u)) (parse_chars r)
          else if take 4 (c # r) = ''null'' then Some (JNull, drop 4 (c # r))
          else if take 4 (c # r) = ''true'' then Some (JBool True, drop 4 (c # r))
          else if take 5 (c # r) = ''false'' then Some (JBool False, drop 5 (c # r))
          else map_option (\<lambda>(n, u). (JNum n, u)) (parse_number (c # r)))"
| "parse_elements 0 s = None"
| "parse_elements (Suc f) s =
     (case parse_value f s of
        None \<Rightarrow> None
      | Some (v, r) \<Rightarrow>
          (case skip_ws r of
             [] \<Rightarrow> None
           | c # t \<Rightarrow>
               if c = CHR '','' then map_option (\<lambda>(vs, u). (v # vs, u)) (parse_elements f t)
               else if c = CHR '']'' then Some ([v], t)
               else None))"
| "parse_members 0 s = None"
| "parse_members (Suc f) s =
     (case skip_ws s of
        [] \<Rightarrow> None
      | q # r \<Rightarrow>
          if q \<noteq> CHR 0x22 then None
          else
            (case parse_chars r of
               None \<Rightarrow> None
             | Some (k, r1) \<Rightarrow>
                 (case skip_ws r1 of
                    [] \<Rightarrow> None
                  | c # r2 \<Rightarrow>
                      if c \<noteq> CHR '':'' then None
                      else
                        (case parse_value f r2 of
                           None \<Rightarrow> None
                         | Some (v, r3) \<Rightarrow>
                             (case skip_ws r3 of
                                [] \<Rightarrow> None
                              | d # r4 \<Rightarrow>
                                  if d = CHR '','' then
                                    map_option (\<lambda>(ms, u). ((k, v) # ms, u)) (parse_members f r4)
                                  else if d = CHR ''}'' then Some ([(k, v)], r4)
                                  else None)))))"

definition JSON_parse :: "string \<Rightarrow> json option" where
  "JSON_parse s =
     (case parse_value (length s) s of
        None \<Rightarrow> None
      | Some (v, r) \<Rightarrow> if skip_ws r = [] then Some v else None)"

declare parse_value.simps [simp del] parse_elements.simps [simp del]
  parse_members.simps [simp del]

text \<open>
  For the proofs about the reader: a value that is a string or a number, the text of one
  member of an object, and the texts that may follow a number.
\<close>

fun scalar :: "json \<Rightarrow> bool" where
  "scalar (JStr s) = True"
| "scalar (JNum n) = True"
| "scalar v = False"

abbreviation member_text :: "string \<times> json \<Rightarrow> string" where
  "member_text \<equiv> (\<lambda>(k, v). json_quote k @ '':'' @ JSON_stringify v)"

definition ends_number :: "string \<Rightarrow> bool" where
  "ends_number t = (case t of [] \<Rightarrow> True | c # u \<Rightarrow> \<not> is_digit c \<and> c \<notin> set ''.eE'')"

section \<open>The commercial paper entity (lib/paper.js)\<close>

text \<open>
  The enumeration object \<open>cpState\<close>. Reading a member it does not have
  (\<open>cpState.EARLYPAY\<close>) gives \<open>undefined\<close>, which is what \<open>map_of\<close> returns.
\<close>

definition cpState :: "(string \<times> nat) list" where
  "cpState =
     [(''PURCHASE'', 1), (''INVOICE'', 2), (''ISSUE'', 3), (''CONFIRM'', 4),
      (''DEPOSIT'', 5), (''APPROVE'', 6), (''PAY'', 7)]"

text \<open>
  A paper object. \<open>paper_class\<close> and \<open>key\<close> are the properties \<open>class\<close> and \<open>key\<close>
  that the base-class constructor receives through
  \<open>super(CommercialPaper.getClass(), [obj.issuer, obj.paperNumber])\<close>; the other
  properties come from \<open>Object.assign(this, obj)\<close> and from the setters.
  \<open>currentState\<close> and \<open>owner\<close> do not exist until a setter has run.
\<close>

record paper =
  paper_class :: string
  key :: string
  issuer :: string
  paperNumber :: int
  issueDateTime :: string
  maturityDateTime :: string
  faceValue :: int
  currentState :: "nat option"
  owner :: "string option"

datatype key_part = KeyStr string | KeyNum int

fun key_part_string :: "key_part \<Rightarrow> string" where
  "key_part_string (KeyStr s) = s"
| "key_part_string (KeyNum n) = num_string n"

definition key_separator :: char where
  "key_separator = CHR '':''"

text \<open>
  Modelled from the spec: \<open>State.makeKey\<close> of ledger-api/state.js, which is not among
  the sources. The spec's key encoding is "the string concatenation of issuer and
  paperNumber joined by a separator not permitted inside either component, with
  paperNumber rendered in a canonical numeric string form". The spec leaves the reserved
  character open; it is \<open>key_separator\<close> here.
\<close>

definition makeKey :: "key_part list \<Rightarrow> string" where
  "makeKey keyParts = join [key_separator] (map key_part_string keyParts)"

definition getClass :: string where
  "getClass = ''org.papernet.commercialpaper''"

definition getIssuer :: "paper \<Rightarrow> string" where
  "getIssuer p = issuer p"

definition setIssuer :: "string \<Rightarrow> paper \<Rightarrow> paper" where
  "setIssuer newIssuer p = p\<lparr>issuer := newIssuer\<rparr>"

definition getOwner :: "paper \<Rightarrow> string option" where
  "getOwner p = owner p"

definition setOwner :: "string \<Rightarrow> paper \<Rightarrow> paper" where
  "setOwner newOwner p = p\<lparr>owner := Some newOwner\<rparr>"

text \<open>
  Modelled from the spec: \<open>getCurrentState\<close> is inherited from the base class of
  ledger-api/state.js, which is not among the sources; it is the accessor of
  \<open>currentState\<close> that the spec's entity exposes.
\<close>

definition getCurrentState :: "paper \<Rightarrow> nat option" where
  "getCurrentState p = currentState p"

definition setPurchase :: "paper \<Rightarrow> paper" where
  "setPurchase p = p\<lparr>currentState := map_of cpState ''PURCHASE''\<rparr>"

definition setInvoice :: "paper \<Rightarrow> paper" where
  "setInvoice p = p\<lparr>currentState := map_of cpState ''INVOICE''\<rparr>"

definition setIssue :: "paper \<Rightarrow> paper" where
  "setIssue p = p\<lparr>currentState := map_of cpState ''ISSUE''\<rparr>"

definition setConfirm :: "paper \<Rightarrow> paper" where
  "setConfirm p = p\<lparr>currentState := map_of cpState ''CONFIRM''\<rparr>"

definition setDeposit :: "paper \<Rightarrow> paper" where
  "setDeposit p = p\<lparr>currentState := map_of cpState ''DEPOSIT''\<rparr>"

definition setApprove :: "paper \<Rightarrow> paper" where
  "setApprove p = p\<lparr>currentState := map_of cpState ''APPROVE''\<rparr>"

definition setPay :: "paper \<Rightarrow> paper" where
  "setPay p = p\<lparr>currentState := map_of cpState ''PAY''\<rparr>"

definition isPurchase :: "paper \<Rightarrow> bool" where
  "isPurchase p = (currentState p = map_of cpState ''PURCHASE'')"

definition isInvoice :: "paper \<Rightarrow> bool" where
  "isInvoice p = (currentState p = map_of cpState ''INVOICE'')"

definition isIssue :: "paper \<Rightarrow> bool" where
  "isIssue p = (currentState p = map_of cpState ''ISSUE'')"

definition isConfirm :: "paper \<Rightarrow> bool" where
  "isConfirm p = (currentState p = map_of cpState ''CONFIRM'')"

definition isDeposit :: "paper \<Rightarrow> bool" where
  "isDeposit p = (currentState p = map_of cpState ''DEPOSIT'')"

definition isApprove :: "paper \<Rightarrow> bool" where
  "isApprove p = (currentState p = map_of cpState ''APPROVE'')"

definition isPay :: "paper \<Rightarrow> bool" where
  "isPay p = (currentState p = map_of cpState ''PAY'')"

text \<open>
  The state methods that the class body of \<open>CommercialPaper\<close> defines, by name. The base
  class of ledger-api/state.js is not among the sources; following the spec's design
  note, it contributes no state setter or predicate.
\<close>

definition state_setters :: "(string \<times> (paper \<Rightarrow> paper)) list" where
  "state_setters =
     [(''setPurchase'', setPurchase), (''setInvoice'', setInvoice), (''setIssue'', setIssue),
      (''setConfirm'', setConfirm), (''setDeposit'', setDeposit), (''setApprove'', setApprove),
      (''setPay'', setPay)]"

definition state_predicates :: "(string \<times> (paper \<Rightarrow> bool)) list" where
  "state_predicates =
     [(''isPurchase'', isPurchase), (''isInvoice'', isInvoice), (''isIssue'', isIssue),
      (''isConfirm'', isConfirm), (''isDeposit'', isDeposit), (''isApprove'', isApprove),
      (''isPay'', isPay)]"

text \<open>
  What the contract can get wrong. The contract throws plain \<open>Error\<close> objects that differ
  in their message; the two throw sites are the spec's OwnerMismatch and
  InvalidStateTransition, and each carries the message the source builds. Calling a
  method that the object does not have throws a \<open>TypeError\<close>.
\<close>

datatype error =
    NotFound string
  | AlreadyExists string
  | OwnerMismatch string
  | InvalidStateTransition string
  | TypeError string
  | SyntaxError string
  | DecodeError string

definition not_a_function :: "string \<Rightarrow> error" where
  "not_a_function name = TypeError (''paper.'' @ name @ '' is not a function'')"

text \<open>A call \<open>paper.name()\<close> of a state method: the method runs if the class has it.\<close>

definition call_setter :: "string \<Rightarrow> paper \<Rightarrow> error + paper" where
  "call_setter name p =
     (case map_of state_setters name of
        None \<Rightarrow> Inl (not_a_function name)
      | Some m \<Rightarrow> Inr (m p))"

definition call_predicate :: "string \<Rightarrow> paper \<Rightarrow> error + bool" where
  "call_predicate name p =
     (case map_of state_predicates name of
        None \<Rightarrow> Inl (not_a_function name)
      | Some m \<Rightarrow> Inr (m p))"

definition bindE :: "error + 'a \<Rightarrow> ('a \<Rightarrow> error + 'b) \<Rightarrow> error + 'b" where
  "bindE m f = (case m of Inl e \<Rightarrow> Inl e | Inr x \<Rightarrow> f x)"

text \<open>
  \<open>JSON.stringify(this)\<close> writes the own properties in the order they were created:
  \<open>class\<close> and \<open>key\<close> by the base constructor, the five creation fields by
  \<open>Object.assign\<close>, then \<open>currentState\<close> and \<open>owner\<close> by the setters. A property that
  is \<open>undefined\<close> is left out.
\<close>

definition toJSON :: "paper \<Rightarrow> json" where
  "toJSON p = JObj
     ([(''class'', JStr (paper_class p)), (''key'', JStr (key p)),
       (''issuer'', JStr (issuer p)), (''paperNumber'', JNum (paperNumber p)),
       (''issueDateTime'', JStr (issueDateTime p)),
       (''maturityDateTime'', JStr (maturityDateTime p)),
       (''faceValue'', JNum (faceValue p))]
      @ (case currentState p of None \<Rightarrow> [] | Some s \<Rightarrow> [(''currentState'', JNum (int s))])
      @ (case owner p of None \<Rightarrow> [] | Some w \<Rightarrow> [(''owner'', JStr w)]))"

definition toBuffer :: "paper \<Rightarrow> string" where
  "toBuffer p = JSON_stringify (toJSON p)"

definition createInstance :: "string \<Rightarrow> int \<Rightarrow> string \<Rightarrow> string \<Rightarrow> int \<Rightarrow> paper" where
  "createInstance issuer' paperNumber' issueDateTime' maturityDateTime' faceValue' =
     \<lparr>paper_class = getClass,
      key = makeKey [KeyStr issuer', KeyNum paperNumber'],
      issuer = issuer', paperNumber = paperNumber',
      issueDateTime = issueDateTime', maturityDateTime = maturityDateTime',
      faceValue = faceValue', currentState = None, owner = None\<rparr>"

subsection \<open>Decoding\<close>

text \<open>
  Reading a property of an object that \<open>JSON.parse\<close> built: of two members with one
  name the later one counts.
\<close>

definition member :: "(string \<times> json) list \<Rightarrow> string \<Rightarrow> json option" where
  "member obj name = map_of (rev obj) name"

text \<open>
  \<open>Buffer.from(value)\<close> for a value that \<open>JSON.parse\<close> returned. A string gives its
  bytes, an array its elements as bytes, an object with a \<open>length\<close> is read as an
  array-like object, an object \<open>{type: 'Buffer', data: [...]}\<close> gives the bytes of
  \<open>data\<close>; anything else, a plain object in particular, throws a TypeError. An element
  becomes a byte by its value modulo 256; elements that are neither numbers nor
  booleans count as 0 here (JavaScript would first convert a numeric string).
\<close>

definition uint8 :: "json option \<Rightarrow> char" where
  "uint8 v =
     (case v of
        None \<Rightarrow> CHR 0x00
      | Some x \<Rightarrow>
          (case x of
             JNum n \<Rightarrow> char_of (nat (n mod 256))
           | JBool b \<Rightarrow> (if b then CHR 0x01 else CHR 0x00)
           | _ \<Rightarrow> CHR 0x00))"

definition not_buffer_like :: error where
  "not_buffer_like =
     TypeError (''The first argument must be of type string or an instance of Buffer, ''
                @ ''ArrayBuffer, or Array or an Array-like Object.'')"

definition Buffer_from :: "json \<Rightarrow> error + string" where
  "Buffer_from v =
     (case v of
        JStr s \<Rightarrow> Inr s
      | JArr vs \<Rightarrow> Inr (map (\<lambda>x. uint8 (Some x)) vs)
      | JObj obj \<Rightarrow>
          (case member obj ''length'' of
             Some l \<Rightarrow>
               (case l of
                  JNum n \<Rightarrow>
                    Inr (map (\<lambda>i. uint8 (member obj (num_string (int i)))) [0..<nat n])
                | _ \<Rightarrow> Inr [])
           | None \<Rightarrow>
               (case member obj ''data'' of
                  None \<Rightarrow> Inl not_buffer_like
                | Some d \<Rightarrow>
                    (case d of
                       JArr vs \<Rightarrow>
                         if member obj ''type'' = Some (JStr ''Buffer'')
                         then Inr (map (\<lambda>x. uint8 (Some x)) vs)
                         else Inl not_buffer_like
                     | _ \<Rightarrow> Inl not_buffer_like)))
      | _ \<Rightarrow> Inl not_buffer_like)"

text \<open>
  The constructor \<open>constructor(obj)\<close> applied to a parsed object: the base constructor
  sets \<open>class\<close> and \<open>key\<close> from \<open>getClass()\<close> and \<open>[obj.issuer, obj.paperNumber]\<close>,
  then \<open>Object.assign(this, obj)\<close> copies the properties of \<open>obj\<close> over them. The
  record holds strings and integers, so an object whose properties are missing or of
  another type is outside the model.
\<close>

definition outside_model :: error where
  "outside_model = DecodeError ''a property is missing or has a type outside the model''"

definition required_string :: "json option \<Rightarrow> error + string" where
  "required_string v =
     (case v of
        None \<Rightarrow> Inl outside_model
      | Some x \<Rightarrow> (case x of JStr s \<Rightarrow> Inr s | _ \<Rightarrow> Inl outside_model))"

definition required_number :: "json option \<Rightarrow> error + int" where
  "required_number v =
     (case v of
        None \<Rightarrow> Inl outside_model
      | Some x \<Rightarrow> (case x of JNum n \<Rightarrow> Inr n | _ \<Rightarrow> Inl outside_model))"

definition optional_string :: "json option \<Rightarrow> error + string option" where
  "optional_string v =
     (case v of
        None \<Rightarrow> Inr None
      | Some x \<Rightarrow> (case x of JStr s \<Rightarrow> Inr (Some s) | _ \<Rightarrow> Inl outside_model))"

definition optional_state :: "json option \<Rightarrow> error + nat option" where
  "optional_state v =
     (case v of
        None \<Rightarrow> Inr None
      | Some x \<Rightarrow>
          (case x of
             JNum n \<Rightarrow> if 0 \<le> n then Inr (Some (nat n)) else Inl outside_model
           | _ \<Rightarrow> Inl outside_model))"

definition new_CommercialPaper :: "(string \<times> json) list \<Rightarrow> error + paper" where
  "new_CommercialPaper obj =
     bindE (required_string (member obj ''issuer'')) (\<lambda>i.
     bindE (required_number (member obj ''paperNumber'')) (\<lambda>n.
     bindE (required_string (member obj ''issueDateTime'')) (\<lambda>idt.
     bindE (required_string (member obj ''maturityDateTime'')) (\<lambda>mdt.
     bindE (required_number (member obj ''faceValue'')) (\<lambda>fv.
     bindE (optional_string (member obj ''class'')) (\<lambda>c.
     bindE (optional_string (member obj ''key'')) (\<lambda>k.
     bindE (optional_state (member obj ''currentState'')) (\<lambda>s.
     bindE (optional_string (member obj ''owner'')) (\<lambda>w.
       Inr ((createInstance i n idt mdt fv)
              \<lparr>paper_class := (case c of None \<Rightarrow> getClass | Some x \<Rightarrow> x),
                key := (case k of None \<Rightarrow> makeKey [KeyStr i, KeyNum n] | Some x \<Rightarrow> x),
                currentState := s, owner := w\<rparr>))))))))))"

text \<open>
  Modelled from the spec: \<open>State.deserializeClass\<close> of ledger-api/state.js, which is not
  among the sources. The spec's Entity Envelope: "unwrap(bytes, expectedTag) -> fields,
  fails with a decoding error if the tag is absent, malformed, or mismatched"; the
  payload is read as JSON and handed to the constructor of the class.
\<close>

definition deserializeClass :: "string \<Rightarrow> string \<Rightarrow> error + paper" where
  "deserializeClass data tag =
     (case JSON_parse data of
        None \<Rightarrow> Inl (DecodeError ''the data is not a JSON text'')
      | Some v \<Rightarrow>
          (case v of
             JObj obj \<Rightarrow>
               (case member obj ''class'' of
                  None \<Rightarrow> Inl (DecodeError ''the type tag is absent'')
                | Some t \<Rightarrow>
                    (case t of
                       JStr c \<Rightarrow>
                         if c = tag then new_CommercialPaper obj
                         else Inl (DecodeError ''the type tag is mismatched'')
                     | _ \<Rightarrow> Inl (DecodeError ''the type tag is malformed'')))
           | _ \<Rightarrow> Inl (DecodeError ''the data is not an object'')))"

definition deserialize :: "string \<Rightarrow> error + paper" where
  "deserialize data = deserializeClass data getClass"

text \<open>
  \<open>fromBuffer(buffer)\<close> is \<open>deserialize(Buffer.from(JSON.parse(buffer)))\<close>;
  \<open>JSON.parse\<close> reads the buffer as the text it holds.
\<close>

definition fromBuffer :: "string \<Rightarrow> error + paper" where
  "fromBuffer buffer =
     (case JSON_parse buffer of
        None \<Rightarrow> Inl (SyntaxError ''Unexpected token in JSON'')
      | Some v \<Rightarrow> bindE (Buffer_from v) deserialize)"

text \<open>
  \<open>Buffer.prototype.toJSON\<close>: what \<open>JSON.stringify\<close> writes for a buffer is the text of
  this object.
\<close>

definition Buffer_toJSON :: "string \<Rightarrow> json" where
  "Buffer_toJSON b =
     JObj [(''type'', JStr ''Buffer''), (''data'', JArr (map (\<lambda>c. JNum (int (of_char c))) b))]"

section \<open>The ledger collection\<close>

text \<open>
  The transaction context holds the list of papers. \<open>ledger_calls\<close> records, in order,
  the calls the contract makes on the list, so that "an update was attempted" can be
  read off the resulting context.
\<close>

datatype ledger_call = GetPaper string | AddPaper paper | UpdatePaper paper

record ctx =
  paperList :: "string \<rightharpoonup> paper"
  ledger_calls :: "ledger_call list"

text \<open>
  Modelled from the spec: \<open>getPaper\<close>, \<open>addPaper\<close> and \<open>updatePaper\<close> of lib/paperlist.js
  (and the state list behind it), which are not among the sources. The spec's Ledger
  Collection: "getByKey(key) fails with NotFound if no record exists at that key";
  "create(entity) fails with AlreadyExists if a record already exists at the entity's
  derived key"; "update(entity) fails with NotFound if no record exists at the entity's
  derived key (it must exist; this operation never creates)".
\<close>

definition getPaper :: "ctx \<Rightarrow> string \<Rightarrow> (error + paper) \<times> ctx" where
  "getPaper c k =
     (let c1 = c\<lparr>ledger_calls := ledger_calls c @ [GetPaper k]\<rparr>
      in case paperList c k of
           None \<Rightarrow> (Inl (NotFound k), c1)
         | Some p \<Rightarrow> (Inr p, c1))"

definition addPaper :: "ctx \<Rightarrow> paper \<Rightarrow> (error + unit) \<times> ctx" where
  "addPaper c p =
     (let c1 = c\<lparr>ledger_calls := ledger_calls c @ [AddPaper p]\<rparr>
      in case paperList c (key p) of
           Some q \<Rightarrow> (Inl (AlreadyExists (key p)), c1)
         | None \<Rightarrow> (Inr (), c1\<lparr>paperList := (paperList c)(key p \<mapsto> p)\<rparr>))"

definition updatePaper :: "ctx \<Rightarrow> paper \<Rightarrow> (error + unit) \<times> ctx" where
  "updatePaper c p =
     (let c1 = c\<lparr>ledger_calls := ledger_calls c @ [UpdatePaper p]\<rparr>
      in case paperList c (key p) of
           None \<Rightarrow> (Inl (NotFound (key p)), c1)
         | Some q \<Rightarrow> (Inr (), c1\<lparr>paperList := (paperList c)(key p \<mapsto> p)\<rparr>))"


section \<open>The contract\<close>

text \<open>
  The class \<open>CommercialPaperContract\<close>, from the source file that requires
  \<open>./paper.js\<close> and \<open>./paperlist.js\<close>.
  Every operation takes the transaction context and returns what the caller gets (the
  serialized paper, or the exception thrown) together with the context afterwards. The
  in-memory paper is a local object: an exception leaves whatever was assigned to it
  behind, and only \<open>addPaper\<close> and \<open>updatePaper\<close> write to the list.
\<close>

definition purchase ::
  "ctx \<Rightarrow> string \<Rightarrow> int \<Rightarrow> string \<Rightarrow> string \<Rightarrow> string \<Rightarrow> int
     \<Rightarrow> (error + string) \<times> ctx" where
  "purchase c issuer' paperNumber' newOwner issueDateTime' maturityDateTime' faceValue' =
     (let paper =
            createInstance issuer' paperNumber' issueDateTime' maturityDateTime' faceValue'
      in case bindE (call_setter ''setPurchase'' paper) (\<lambda>paper.
                Inr (setOwner newOwner paper))
         of Inl e \<Rightarrow> (Inl e, c)
          | Inr paper \<Rightarrow>
              (case addPaper c paper of
                 (Inl e, c1) \<Rightarrow> (Inl e, c1)
               | (Inr u, c1) \<Rightarrow> (Inr (toBuffer paper), c1)))"

definition invoice ::
  "ctx \<Rightarrow> string \<Rightarrow> int \<Rightarrow> string \<Rightarrow> string \<Rightarrow> int \<Rightarrow> string
     \<Rightarrow> (error + string) \<times> ctx" where
  "invoice c issuer' paperNumber' currentOwner newOwner invoiceAmount invoiceDateTime =
     (let paperKey = makeKey [KeyStr issuer', KeyNum paperNumber']
      in case getPaper c paperKey of
           (Inl e, c1) \<Rightarrow> (Inl e, c1)
         | (Inr paper, c1) \<Rightarrow>
             (case
                (if getOwner paper \<noteq> Some currentOwner
                 then Inl (OwnerMismatch
                        (''Paper '' @ issuer' @ num_string paperNumber'
                           @ '' is not owned by '' @ currentOwner))
                 else
                   bindE (call_predicate ''isPurchase'' paper) (\<lambda>b.
                   bindE (if b then call_setter ''setInvoice'' paper else Inr paper) (\<lambda>paper.
                   bindE (call_predicate ''isInvoice'' paper) (\<lambda>b.
                     if b then Inr (setOwner newOwner paper)
                     else Inl (InvalidStateTransition
                            (''Paper '' @ issuer' @ num_string paperNumber'
                               @ '' is not invoiced. Current state = ''
                               @ state_string (getCurrentState paper)))))))
              of Inl e \<Rightarrow> (Inl e, c1)
               | Inr paper \<Rightarrow>
                   (case updatePaper c1 paper of
                      (Inl e, c2) \<Rightarrow> (Inl e, c2)
                    | (Inr u, c2) \<Rightarrow> (Inr (toBuffer paper), c2))))"

definition issue ::
  "ctx \<Rightarrow> string \<Rightarrow> int \<Rightarrow> string \<Rightarrow> string \<Rightarrow> int \<Rightarrow> string
     \<Rightarrow> (error + string) \<times> ctx" where
  "issue c issuer' paperNumber' currentOwner newOwner issueAmount issueDateTime' =
     (let paperKey = makeKey [KeyStr issuer', KeyNum paperNumber']
      in case getPaper c paperKey of
           (Inl e, c1) \<Rightarrow> (Inl e, c1)
         | (Inr paper, c1) \<Rightarrow>
             (case
                (if getOwner paper \<noteq> Some currentOwner
                 then Inl (OwnerMismatch
                        (''Paper '' @ issuer' @ num_string paperNumber'
                           @ '' is not owned by '' @ currentOwner))
                 else
                   bindE (call_predicate ''isInvoice'' paper) (\<lambda>b.
                   bindE (if b then call_setter ''setIssue'' paper else Inr paper) (\<lambda>paper.
                   bindE (call_predicate ''isIssue'' paper) (\<lambda>b.
                     if b then Inr (setOwner newOwner paper)
                     else Inl (InvalidStateTransition
                            (''Paper '' @ issuer' @ num_string paperNumber'
                               @ '' is not issued. Current state = ''
                               @ state_string (getCurrentState paper)))))))
              of Inl e \<Rightarrow> (Inl e, c1)
               | Inr paper \<Rightarrow>
                   (case updatePaper c1 paper of
                      (Inl e, c2) \<Rightarrow> (Inl e, c2)
                    | (Inr u, c2) \<Rightarrow> (Inr (toBuffer paper), c2))))"

definition confirm ::
  "ctx \<Rightarrow> string \<Rightarrow> int \<Rightarrow> string \<Rightarrow> string \<Rightarrow> int \<Rightarrow> string
     \<Rightarrow> (error + string) \<times> ctx" where
  "confirm c issuer' paperNumber' currentOwner newOwner confirmAmount confirmDateTime =
     (let paperKey = makeKey [KeyStr issuer', KeyNum paperNumber']
      in case getPaper c paperKey of
           (Inl e, c1) \<Rightarrow> (Inl e, c1)
         | (Inr paper, c1) \<Rightarrow>
             (case
                (if getOwner paper \<noteq> Some currentOwner
                 then Inl (OwnerMismatch
                        (''Paper '' @ issuer' @ num_string paperNumber'
                           @ '' is not owned by '' @ currentOwner))
                 else
                   bindE (call_predicate ''isIssue'' paper) (\<lambda>b.
                   bindE (if b then call_setter ''setConfirm'' paper else Inr paper) (\<lambda>paper.
                   bindE (call_predicate ''isConfirm'' paper) (\<lambda>b.
                     if b then Inr (setOwner newOwner paper)
                     else Inl (InvalidStateTransition
                            (''Paper '' @ issuer' @ num_string paperNumber'
                               @ '' is not confirmed. Current state = ''
                               @ state_string (getCurrentState paper)))))))
              of Inl e \<Rightarrow> (Inl e, c1)
               | Inr paper \<Rightarrow>
                   (case updatePaper c1 paper of
                      (Inl e, c2) \<Rightarrow> (Inl e, c2)
                    | (Inr u, c2) \<Rightarrow> (Inr (toBuffer paper), c2))))"

definition earlyPay ::
  "ctx \<Rightarrow> string \<Rightarrow> int \<Rightarrow> string \<Rightarrow> string \<Rightarrow> int \<Rightarrow> string
     \<Rightarrow> (error + string) \<times> ctx" where
  "earlyPay c issuer' paperNumber' currentOwner newOwner earlyPayAmount earlyPayDateTime =
     (let paperKey = makeKey [KeyStr issuer', KeyNum paperNumber']
      in case getPaper c paperKey of
           (Inl e, c1) \<Rightarrow> (Inl e, c1)
         | (Inr paper, c1) \<Rightarrow>
             (case
                (if getOwner paper \<noteq> Some currentOwner
                 then Inl (OwnerMismatch
                        (''Paper '' @ issuer' @ num_string paperNumber'
                           @ '' is not owned by '' @ currentOwner))
                 else
                   bindE (call_predicate ''isConfirm'' paper) (\<lambda>b.
                   bindE (if b then call_setter ''setEarlyPay'' paper else Inr paper) (\<lambda>paper.
                   bindE (call_predicate ''isEarlyPay'' paper) (\<lambda>b.
                     if b then Inr (setOwner newOwner paper)
                     else Inl (InvalidStateTransition
                            (''Paper '' @ issuer' @ num_string paperNumber'
                               @ '' is not early paid. Current state = ''
                               @ state_string (getCurrentState paper)))))))
              of Inl e \<Rightarrow> (Inl e, c1)
               | Inr paper \<Rightarrow>
                   (case updatePaper c1 paper of
                      (Inl e, c2) \<Rightarrow> (Inl e, c2)
                    | (Inr u, c2) \<Rightarrow> (Inr (toBuffer paper), c2))))"

definition acknowledge ::
  "ctx \<Rightarrow> string \<Rightarrow> int \<Rightarrow> string \<Rightarrow> string \<Rightarrow> int \<Rightarrow> string
     \<Rightarrow> (error + string) \<times> ctx" where
  "acknowledge c issuer' paperNumber' currentOwner newOwner acknowledgeAmount acknowledgeDateTime =
     (let paperKey = makeKey [KeyStr issuer', KeyNum paperNumber']
      in case getPaper c paperKey of
           (Inl e, c1) \<Rightarrow> (Inl e, c1)
         | (Inr paper, c1) \<Rightarrow>
             (case
                (if getOwner paper \<noteq> Some currentOwner
                 then Inl (OwnerMismatch
                        (''Paper '' @ issuer' @ num_string paperNumber'
                           @ '' is not owned by '' @ currentOwner))
                 else
                   bindE (call_predicate ''isEarlyPay'' paper) (\<lambda>b.
                   bindE (if b then call_setter ''setAcknowledge'' paper else Inr paper) (\<lambda>paper.
                   bindE (call_predicate ''isAcknowledge'' paper) (\<lambda>b.
                     if b then Inr (setOwner newOwner paper)
                     else Inl (InvalidStateTransition
                            (''Paper '' @ issuer' @ num_string paperNumber'
                               @ '' is not acknowledged. Current state = ''
                               @ state_string (getCurrentState paper)))))))
              of Inl e \<Rightarrow> (Inl e, c1)
               | Inr paper \<Rightarrow>
                   (case updatePaper c1 paper of
                      (Inl e, c2) \<Rightarrow> (Inl e, c2)
                    | (Inr u, c2) \<Rightarrow> (Inr (toBuffer paper), c2))))"

definition pay ::
  "ctx \<Rightarrow> string \<Rightarrow> int \<Rightarrow> string \<Rightarrow> string \<Rightarrow> int \<Rightarrow> string
     \<Rightarrow> (error + string) \<times> ctx" where
  "pay c issuer' paperNumber' currentOwner newOwner payAmount payDateTime =
     (let paperKey = makeKey [KeyStr issuer', KeyNum paperNumber']
      in case getPaper c paperKey of
           (Inl e, c1) \<Rightarrow> (Inl e, c1)
         | (Inr paper, c1) \<Rightarrow>
             (case
                (if getOwner paper \<noteq> Some currentOwner
                 then Inl (OwnerMismatch
                        (''Paper '' @ issuer' @ num_string paperNumber'
                           @ '' is not owned by '' @ currentOwner))
                 else
                   bindE (call_predicate ''isAcknowledge'' paper) (\<lambda>b.
                   bindE (if b then call_setter ''setPay'' paper else Inr paper) (\<lambda>paper.
                   bindE (call_predicate ''isPay'' paper) (\<lambda>b.
                     if b then Inr (setOwner newOwner paper)
                     else Inl (InvalidStateTransition
                            (''Paper '' @ issuer' @ num_string paperNumber'
                               @ '' is not paid. Current state = ''
                               @ state_string (getCurrentState paper)))))))
              of Inl e \<Rightarrow> (Inl e, c1)
               | Inr paper \<Rightarrow>
                   (case updatePaper c1 paper of
                      (Inl e, c2) \<Rightarrow> (Inl e, c2)
                    | (Inr u, c2) \<Rightarrow> (Inr (toBuffer paper), c2))))"


section \<open>Invocations\<close>

text \<open>The six operations that move an existing paper forward, by name.\<close>

datatype advancing = Invoice | Issue | Confirm | EarlyPay | Acknowledge | Pay

fun advance ::
  "advancing \<Rightarrow> ctx \<Rightarrow> string \<Rightarrow> int \<Rightarrow> string \<Rightarrow> string \<Rightarrow> int \<Rightarrow> string
     \<Rightarrow> (error + string) \<times> ctx" where
  "advance Invoice = invoice"
| "advance Issue = issue"
| "advance Confirm = confirm"
| "advance EarlyPay = earlyPay"
| "advance Acknowledge = acknowledge"
| "advance Pay = pay"

text \<open>
  The spec's table of the advancing operations: the predecessor state and the target
  state of each, over its canonical sequence
  PURCHASE(1), INVOICE(2), ISSUE(3), CONFIRM(4), EARLYPAY(5), ACKNOWLEDGE(6), PAY(7).
\<close>

fun spec_predecessor :: "advancing \<Rightarrow> nat" where
  "spec_predecessor Invoice = 1"
| "spec_predecessor Issue = 2"
| "spec_predecessor Confirm = 3"
| "spec_predecessor EarlyPay = 4"
| "spec_predecessor Acknowledge = 5"
| "spec_predecessor Pay = 6"

fun spec_target :: "advancing \<Rightarrow> nat" where
  "spec_target Invoice = 2"
| "spec_target Issue = 3"
| "spec_target Confirm = 4"
| "spec_target EarlyPay = 5"
| "spec_target Acknowledge = 6"
| "spec_target Pay = 7"

text \<open>
  One transaction: a call of one of the seven operations with its arguments. The
  platform runs transactions one after another on the context the previous one left.
\<close>

datatype invocation =
    PurchaseCall string int string string string int
  | AdvanceCall advancing string int string string int string

fun invoke :: "invocation \<Rightarrow> ctx \<Rightarrow> (error + string) \<times> ctx" where
  "invoke (PurchaseCall i n newOwner idt mdt fv) c = purchase c i n newOwner idt mdt fv"
| "invoke (AdvanceCall a i n currentOwner newOwner amount dt) c =
     advance a c i n currentOwner newOwner amount dt"

fun run :: "invocation list \<Rightarrow> ctx \<Rightarrow> ctx" where
  "run [] c = c"
| "run (x # xs) c = run xs (snd (invoke x c))"

definition initial_ctx :: ctx where
  "initial_ctx = \<lparr>paperList = Map.empty, ledger_calls = []\<rparr>"

text \<open>
  A list of papers is well formed when every paper is stored under its own key, as
  \<open>addPaper\<close> and \<open>updatePaper\<close> store it.
\<close>

definition ledger_wf :: "ctx \<Rightarrow> bool" where
  "ledger_wf c = (\<forall>k p. paperList c k = Some p \<longrightarrow> key p = k)"

text \<open>
  \<open>paper_key i n\<close> is the key the operations look up, and \<open>after_get c k\<close> the context
  once \<open>getPaper\<close> has been called.
\<close>

abbreviation paper_key :: "string \<Rightarrow> int \<Rightarrow> string" where
  "paper_key i n \<equiv> makeKey [KeyStr i, KeyNum n]"

abbreviation after_get :: "ctx \<Rightarrow> string \<Rightarrow> ctx" where
  "after_get c k \<equiv> c\<lparr>ledger_calls := ledger_calls c @ [GetPaper k]\<rparr>"

abbreviation not_owned_by :: "string \<Rightarrow> int \<Rightarrow> string \<Rightarrow> error" where
  "not_owned_by i n currentOwner \<equiv>
     OwnerMismatch (''Paper '' @ i @ num_string n @ '' is not owned by '' @ currentOwner)"


abbreviation purchased :: "string \<Rightarrow> int \<Rightarrow> string \<Rightarrow> string \<Rightarrow> string \<Rightarrow> int \<Rightarrow> paper" where
  "purchased i n newOwner idt mdt fv \<equiv>
     (createInstance i n idt mdt fv)\<lparr>currentState := Some 1, owner := Some newOwner\<rparr>"


abbreviation moved :: "advancing \<Rightarrow> string \<Rightarrow> paper \<Rightarrow> paper" where
  "moved a newOwner p \<equiv> p\<lparr>currentState := Some (spec_target a), owner := Some newOwner\<rparr>"

text \<open>
  The paper of the spec's first scenario, at a given state and with a given owner, and a
  context whose list holds one paper.
\<close>

definition magneto_purchase :: invocation where
  "magneto_purchase =
     PurchaseCall ''MagnetoCorp'' 1 ''MagnetoCorp'' ''2020-05-31'' ''2020-11-30'' 5000000"

definition magneto_paper :: "nat \<Rightarrow> string \<Rightarrow> paper" where
  "magneto_paper s w =
     (createInstance ''MagnetoCorp'' 1 ''2020-05-31'' ''2020-11-30'' 5000000)
       \<lparr>currentState := Some s, owner := Some w\<rparr>"

definition holding :: "paper \<Rightarrow> ctx" where
  "holding p = \<lparr>paperList = [key p \<mapsto> p], ledger_calls = []\<rparr>"

text \<open>
  The scenario paper after purchase, invoice, issue and confirm, each by the owner of the
  moment.
\<close>

definition magneto_confirmed :: ctx where
  "magneto_confirmed =
     run [magneto_purchase,
          AdvanceCall Invoice ''MagnetoCorp'' 1 ''MagnetoCorp'' ''DigiBank'' 4900000 ''2020-06-01'',
          AdvanceCall Issue ''MagnetoCorp'' 1 ''DigiBank'' ''BigFund'' 4900000 ''2020-06-02'',
          AdvanceCall Confirm ''MagnetoCorp'' 1 ''BigFund'' ''Hedgematic'' 4900000 ''2020-06-03'']
       initial_ctx"

section \<open>Method calls and state values\<close>

lemma cpState_lookup:
  "map_of cpState ''PURCHASE'' = Some 1" "map_of cpState ''INVOICE'' = Some 2"
  "map_of cpState ''ISSUE'' = Some 3" "map_of cpState ''CONFIRM'' = Some 4"
  "map_of cpState ''DEPOSIT'' = Some 5" "map_of cpState ''APPROVE'' = Some 6"
  "map_of cpState ''PAY'' = Some 7"
  by (simp_all add: cpState_def)

lemma call_predicate_defined:
  "call_predicate ''isPurchase'' p = Inr (currentState p = Some 1)"
  "call_predicate ''isInvoice'' p = Inr (currentState p = Some 2)"
  "call_predicate ''isIssue'' p = Inr (currentState p = Some 3)"
  "call_predicate ''isConfirm'' p = Inr (currentState p = Some 4)"
  "call_predicate ''isDeposit'' p = Inr (currentState p = Some 5)"
  "call_predicate ''isApprove'' p = Inr (currentState p = Some 6)"
  "call_predicate ''isPay'' p = Inr (currentState p = Some 7)"
  by (simp_all add: call_predicate_def state_predicates_def cpState_lookup
      isPurchase_def isInvoice_def isIssue_def isConfirm_def isDeposit_def isApprove_def
      isPay_def)

lemma call_predicate_missing:
  "call_predicate ''isEarlyPay'' p = Inl (not_a_function ''isEarlyPay'')"
  "call_predicate ''isAcknowledge'' p = Inl (not_a_function ''isAcknowledge'')"
  by (simp_all add: call_predicate_def state_predicates_def)

lemma call_setter_defined:
  "call_setter ''setPurchase'' p = Inr (p\<lparr>currentState := Some 1\<rparr>)"
  "call_setter ''setInvoice'' p = Inr (p\<lparr>currentState := Some 2\<rparr>)"
  "call_setter ''setIssue'' p = Inr (p\<lparr>currentState := Some 3\<rparr>)"
  "call_setter ''setConfirm'' p = Inr (p\<lparr>currentState := Some 4\<rparr>)"
  "call_setter ''setDeposit'' p = Inr (p\<lparr>currentState := Some 5\<rparr>)"
  "call_setter ''setApprove'' p = Inr (p\<lparr>currentState := Some 6\<rparr>)"
  "call_setter ''setPay'' p = Inr (p\<lparr>currentState := Some 7\<rparr>)"
  by (simp_all add: call_setter_def state_setters_def cpState_lookup
      setPurchase_def setInvoice_def setIssue_def setConfirm_def setDeposit_def setApprove_def
      setPay_def)

lemma call_setter_missing:
  "call_setter ''setEarlyPay'' p = Inl (not_a_function ''setEarlyPay'')"
  "call_setter ''setAcknowledge'' p = Inl (not_a_function ''setAcknowledge'')"
  by (simp_all add: call_setter_def state_setters_def)

lemmas method_calls =
  call_predicate_defined call_predicate_missing call_setter_defined call_setter_missing

lemma currentState_update_same: "currentState p = s \<Longrightarrow> p\<lparr>currentState := s\<rparr> = p"
  by (cases p) simp

section \<open>What each operation computes\<close>

lemma advance_absent:
  "paperList c (paper_key i n) = None \<Longrightarrow>
   advance a c i n co no amt dt = (Inl (NotFound (paper_key i n)), after_get c (paper_key i n))"
  by (cases a)
     (simp_all add: invoice_def issue_def confirm_def earlyPay_def acknowledge_def pay_def
        getPaper_def Let_def)

lemma invoice_stored:
  "paperList c (paper_key i n) = Some p \<Longrightarrow>
   invoice c i n co no amt dt =
     (if owner p \<noteq> Some co then (Inl (not_owned_by i n co), after_get c (paper_key i n))
      else if currentState p = Some 1 \<or> currentState p = Some 2
      then (case updatePaper (after_get c (paper_key i n))
                   (p\<lparr>currentState := Some 2, owner := Some no\<rparr>) of
              (Inl e, c2) \<Rightarrow> (Inl e, c2)
            | (Inr u, c2) \<Rightarrow>
                (Inr (toBuffer (p\<lparr>currentState := Some 2, owner := Some no\<rparr>)), c2))
      else (Inl (InvalidStateTransition
                  (''Paper '' @ i @ num_string n @ '' is not invoiced. Current state = ''
                     @ state_string (currentState p))),
            after_get c (paper_key i n)))"
  by (auto simp add: invoice_def getPaper_def Let_def bindE_def method_calls getOwner_def
        setOwner_def getCurrentState_def currentState_update_same
        split: prod.splits sum.splits)

lemma issue_stored:
  "paperList c (paper_key i n) = Some p \<Longrightarrow>
   issue c i n co no amt dt =
     (if owner p \<noteq> Some co then (Inl (not_owned_by i n co), after_get c (paper_key i n))
      else if currentState p = Some 2 \<or> currentState p = Some 3
      then (case updatePaper (after_get c (paper_key i n))
                   (p\<lparr>currentState := Some 3, owner := Some no\<rparr>) of
              (Inl e, c2) \<Rightarrow> (Inl e, c2)
            | (Inr u, c2) \<Rightarrow>
                (Inr (toBuffer (p\<lparr>currentState := Some 3, owner := Some no\<rparr>)), c2))
      else (Inl (InvalidStateTransition
                  (''Paper '' @ i @ num_string n @ '' is not issued. Current state = ''
                     @ state_string (currentState p))),
            after_get c (paper_key i n)))"
  by (auto simp add: issue_def getPaper_def Let_def bindE_def method_calls getOwner_def
        setOwner_def getCurrentState_def currentState_update_same
        split: prod.splits sum.splits)

lemma confirm_stored:
  "paperList c (paper_key i n) = Some p \<Longrightarrow>
   confirm c i n co no amt dt =
     (if owner p \<noteq> Some co then (Inl (not_owned_by i n co), after_get c (paper_key i n))
      else if currentState p = Some 3 \<or> currentState p = Some 4
      then (case updatePaper (after_get c (paper_key i n))
                   (p\<lparr>currentState := Some 4, owner := Some no\<rparr>) of
              (Inl e, c2) \<Rightarrow> (Inl e, c2)
            | (Inr u, c2) \<Rightarrow>
                (Inr (toBuffer (p\<lparr>currentState := Some 4, owner := Some no\<rparr>)), c2))
      else (Inl (InvalidStateTransition
                  (''Paper '' @ i @ num_string n @ '' is not confirmed. Current state = ''
                     @ state_string (currentState p))),
            after_get c (paper_key i n)))"
  by (auto simp add: confirm_def getPaper_def Let_def bindE_def method_calls getOwner_def
        setOwner_def getCurrentState_def currentState_update_same
        split: prod.splits sum.splits)

lemma earlyPay_stored:
  "paperList c (paper_key i n) = Some p \<Longrightarrow>
   earlyPay c i n co no amt dt =
     (Inl (if owner p \<noteq> Some co then not_owned_by i n co
           else if currentState p = Some 4 then not_a_function ''setEarlyPay''
           else not_a_function ''isEarlyPay''),
      after_get c (paper_key i n))"
  by (auto simp add: earlyPay_def getPaper_def Let_def bindE_def method_calls getOwner_def)

lemma acknowledge_stored:
  "paperList c (paper_key i n) = Some p \<Longrightarrow>
   acknowledge c i n co no amt dt =
     (Inl (if owner p \<noteq> Some co then not_owned_by i n co
           else not_a_function ''isEarlyPay''),
      after_get c (paper_key i n))"
  by (auto simp add: acknowledge_def getPaper_def Let_def bindE_def method_calls getOwner_def)

lemma pay_stored:
  "paperList c (paper_key i n) = Some p \<Longrightarrow>
   pay c i n co no amt dt =
     (Inl (if owner p \<noteq> Some co then not_owned_by i n co
           else not_a_function ''isAcknowledge''),
      after_get c (paper_key i n))"
  by (auto simp add: pay_def getPaper_def Let_def bindE_def method_calls getOwner_def)

lemmas advance_stored =
  invoice_stored issue_stored confirm_stored earlyPay_stored acknowledge_stored pay_stored

lemma purchase_fresh:
  "paperList c (paper_key i n) = None \<Longrightarrow>
   purchase c i n no idt mdt fv =
     (Inr (toBuffer (purchased i n no idt mdt fv)),
      c\<lparr>ledger_calls := ledger_calls c @ [AddPaper (purchased i n no idt mdt fv)],
        paperList := (paperList c)(paper_key i n \<mapsto> purchased i n no idt mdt fv)\<rparr>)"
  by (simp add: purchase_def bindE_def method_calls setOwner_def addPaper_def Let_def
        createInstance_def)

lemma purchase_occupied:
  "paperList c (paper_key i n) = Some q \<Longrightarrow>
   purchase c i n no idt mdt fv =
     (Inl (AlreadyExists (paper_key i n)),
      c\<lparr>ledger_calls := ledger_calls c @ [AddPaper (purchased i n no idt mdt fv)]\<rparr>)"
  by (simp add: purchase_def bindE_def method_calls setOwner_def addPaper_def Let_def
        createInstance_def)

lemma updatePaper_stored:
  "paperList c (key p) = Some q \<Longrightarrow>
   updatePaper c p =
     (Inr (), c\<lparr>ledger_calls := ledger_calls c @ [UpdatePaper p],
               paperList := (paperList c)(key p \<mapsto> p)\<rparr>)"
  by (simp add: updatePaper_def Let_def)

lemma advance_ignores_amount:
  "advance a c i n co no amount dt = advance a c i n co no amount' dt'"
  by (cases a)
     (simp_all add: invoice_def issue_def confirm_def earlyPay_def acknowledge_def pay_def)

section \<open>One transaction, and many\<close>

lemma advance_result:
  assumes "advance a c i n co no amt dt = (r, c')"
  shows "(\<exists>e. r = Inl e \<and> paperList c' = paperList c
              \<and> (ledger_calls c' = ledger_calls c @ [GetPaper (paper_key i n)] \<or>
                  (\<exists>q. ledger_calls c' = ledger_calls c @ [GetPaper (paper_key i n), UpdatePaper q])))
         \<or> (\<exists>p q. a \<in> {Invoice, Issue, Confirm}
              \<and> paperList c (paper_key i n) = Some p \<and> owner p = Some co
              \<and> (currentState p = Some (spec_predecessor a) \<or> currentState p = Some (spec_target a))
              \<and> paperList c (key p) = Some q
              \<and> r = Inr (toBuffer (moved a no p))
              \<and> c' = c\<lparr>ledger_calls := ledger_calls c @ [GetPaper (paper_key i n), UpdatePaper (moved a no p)],
                       paperList := (paperList c)(key p \<mapsto> moved a no p)\<rparr>)"
proof (cases "paperList c (paper_key i n)")
  case None
  with assms show ?thesis by (auto simp add: advance_absent)
next
  case (Some p)
  with assms show ?thesis
    by (cases a) (auto simp add: advance_stored updatePaper_def Let_def split: if_splits option.splits)
qed

lemma purchase_result:
  assumes "purchase c i n no idt mdt fv = (r, c')"
  shows "(\<exists>e. r = Inl e \<and> paperList c' = paperList c)
         \<or> (paperList c (paper_key i n) = None
              \<and> r = Inr (toBuffer (purchased i n no idt mdt fv))
              \<and> paperList c' = (paperList c)(paper_key i n \<mapsto> purchased i n no idt mdt fv))"
proof (cases "paperList c (paper_key i n)")
  case None
  with assms show ?thesis by (auto simp add: purchase_fresh)
next
  case (Some q)
  with assms show ?thesis by (auto simp add: purchase_occupied)
qed

text \<open>What one transaction does to the paper stored under a key.\<close>

lemma invoke_stored:
  assumes wf: "ledger_wf c" and stored: "paperList c k = Some p"
  shows "paperList (snd (invoke x c)) k = Some p
         \<or> (\<exists>a no. a \<in> {Invoice, Issue, Confirm}
               \<and> (currentState p = Some (spec_predecessor a) \<or> currentState p = Some (spec_target a))
               \<and> paperList (snd (invoke x c)) k = Some (moved a no p))"
proof (cases x)
  case (PurchaseCall i n no idt mdt fv)
  obtain r c' where res: "purchase c i n no idt mdt fv = (r, c')"
    by (cases "purchase c i n no idt mdt fv") auto
  from purchase_result [OF res] stored have "paperList c' k = Some p"
    by auto
  with PurchaseCall res show ?thesis by simp
next
  case (AdvanceCall a i n co no amt dt)
  obtain r c' where res: "advance a c i n co no amt dt = (r, c')"
    by (cases "advance a c i n co no amt dt") auto
  from advance_result [OF res]
  have "paperList c' k = Some p
         \<or> (a \<in> {Invoice, Issue, Confirm}
               \<and> (currentState p = Some (spec_predecessor a) \<or> currentState p = Some (spec_target a))
               \<and> paperList c' k = Some (moved a no p))"
  proof -
    from advance_result [OF res] consider
      (unchanged) "paperList c' = paperList c"
      | (written) q where "a \<in> {Invoice, Issue, Confirm}"
          "paperList c (paper_key i n) = Some q"
          "currentState q = Some (spec_predecessor a) \<or> currentState q = Some (spec_target a)"
          "paperList c' = (paperList c)(key q \<mapsto> moved a no q)"
      by auto
    then show ?thesis
    proof cases
      case unchanged
      with stored show ?thesis by simp
    next
      case written
      from wf written(2) have kq: "key q = paper_key i n" by (simp add: ledger_wf_def)
      show ?thesis
      proof (cases "k = paper_key i n")
        case True
        with written(2) stored have "q = p" by simp
        with written kq True show ?thesis by simp
      next
        case False
        with written(4) kq stored show ?thesis by simp
      qed
    qed
  qed
  with AdvanceCall res show ?thesis by auto
qed

lemma invoke_wf:
  assumes wf: "ledger_wf c"
  shows "ledger_wf (snd (invoke x c))"
proof (cases x)
  case (PurchaseCall i n no idt mdt fv)
  obtain r c' where res: "purchase c i n no idt mdt fv = (r, c')"
    by (cases "purchase c i n no idt mdt fv") auto
  from purchase_result [OF res] wf have "ledger_wf c'"
    by (auto simp add: ledger_wf_def createInstance_def split: if_splits)
  with PurchaseCall res show ?thesis by simp
next
  case (AdvanceCall a i n co no amt dt)
  obtain r c' where res: "advance a c i n co no amt dt = (r, c')"
    by (cases "advance a c i n co no amt dt") auto
  from advance_result [OF res] wf have "ledger_wf c'"
    by (auto simp add: ledger_wf_def split: if_splits)
  with AdvanceCall res show ?thesis by simp
qed



lemma holding_wf: "ledger_wf (holding p)"
  by (simp add: ledger_wf_def holding_def)

lemma one_step:
  assumes "ledger_wf c" and "paperList c k = Some p"
  shows "\<exists>p'. paperList (snd (invoke x c)) k = Some p'
            \<and> (currentState p' = currentState p
                \<or> (\<exists>s. currentState p = Some s \<and> currentState p' = Some (Suc s)))"
  using invoke_stored [OF assms, of x] by (cases rule: disjE) auto

lemma many_steps:
  assumes "ledger_wf c" and "paperList c k = Some p"
  shows "\<exists>p'. paperList (run xs c) k = Some p'
            \<and> (currentState p' = currentState p
                \<or> (\<exists>s s'. currentState p = Some s \<and> currentState p' = Some s' \<and> s \<le> s'))"
  using assms
proof (induction xs arbitrary: c p)
  case Nil
  then show ?case by simp
next
  case (Cons x xs)
  from one_step [OF Cons.prems, of x] obtain q where
    q: "paperList (snd (invoke x c)) k = Some q"
    and step: "currentState q = currentState p
                \<or> (\<exists>s. currentState p = Some s \<and> currentState q = Some (Suc s))"
    by blast
  from Cons.prems have "ledger_wf (snd (invoke x c))" by (simp add: invoke_wf)
  from Cons.IH [OF this q] obtain p' where
    p': "paperList (run xs (snd (invoke x c))) k = Some p'"
    and rest: "currentState p' = currentState q
                \<or> (\<exists>s s'. currentState q = Some s \<and> currentState p' = Some s' \<and> s \<le> s')"
    by blast
  from step rest have "currentState p' = currentState p
                \<or> (\<exists>s s'. currentState p = Some s \<and> currentState p' = Some s' \<and> s \<le> s')"
    by auto
  with p' show ?case by auto
qed

text \<open>A transaction that throws leaves the list of papers as it was.\<close>

lemma failed_invocation_writes_nothing:
  assumes "fst (invoke x c) = Inl e"
  shows "paperList (snd (invoke x c)) = paperList c"
proof (cases x)
  case (PurchaseCall i n no idt mdt fv)
  obtain r c' where res: "purchase c i n no idt mdt fv = (r, c')"
    by (cases "purchase c i n no idt mdt fv") auto
  from purchase_result [OF res] assms PurchaseCall res show ?thesis by auto
next
  case (AdvanceCall a i n co no amt dt)
  obtain r c' where res: "advance a c i n co no amt dt = (r, c')"
    by (cases "advance a c i n co no amt dt") auto
  from advance_result [OF res] assms AdvanceCall res show ?thesis by auto
qed

section \<open>The scenario papers\<close>

lemma num_string_1: "num_string 1 = ''1''"
  by (simp add: num_string_def nat_digits.simps digit_char_def)

lemma magneto_key: "key (magneto_paper s w) = paper_key ''MagnetoCorp'' 1"
  by (simp add: magneto_paper_def createInstance_def)

lemma run_magneto_purchase:
  "paperList (run [magneto_purchase] initial_ctx) (paper_key ''MagnetoCorp'' 1)
     = Some (magneto_paper 1 ''MagnetoCorp'')"
  by (simp add: magneto_purchase_def purchase_fresh initial_ctx_def magneto_paper_def)

lemma magneto_paper_simps:
  "owner (magneto_paper s w) = Some w" "currentState (magneto_paper s w) = Some s"
  "(magneto_paper s w)\<lparr>currentState := Some s', owner := Some w'\<rparr> = magneto_paper s' w'"
  by (simp_all add: magneto_paper_def)

lemma magneto_confirmed_list:
  "paperList magneto_confirmed = [paper_key ''MagnetoCorp'' 1 \<mapsto> magneto_paper 4 ''Hedgematic'']"
  by (simp add: magneto_confirmed_def magneto_purchase_def purchase_fresh initial_ctx_def
        advance_stored updatePaper_stored createInstance_def magneto_paper_def)

lemma holding_magneto:
  "paperList (holding (magneto_paper s w)) (paper_key ''MagnetoCorp'' 1) = Some (magneto_paper s w)"
  by (simp add: holding_def magneto_key)

section \<open>Advancing from the predecessor state\<close>


text \<open>
  C1 (advance from the predecessor state), at the inputs where the code departs from
  it. The scenario paper is purchased, invoiced, issued and confirmed, so it is stored
  at CONFIRM(4) and owned by Hedgematic. \<open>earlyPay\<close> by Hedgematic then finds
  \<open>isConfirm()\<close> true and calls \<open>paper.setEarlyPay()\<close>, a method the class does not
  have: the call throws a TypeError, nothing is updated and nothing is returned.
  \<open>acknowledge\<close> on a paper stored at state 5 and \<open>pay\<close> on a paper stored at state 6
  throw at their first test, \<open>isEarlyPay()\<close> and \<open>isAcknowledge()\<close>.
\<close>

theorem earlyPay_from_confirm_throws:
  "paperList magneto_confirmed (paper_key ''MagnetoCorp'' 1)
       = Some (magneto_paper 4 ''Hedgematic'')
   \<and> earlyPay magneto_confirmed ''MagnetoCorp'' 1 ''Hedgematic'' ''DigiBank'' 5000000 ''2020-06-04''
       = (Inl (TypeError ''paper.setEarlyPay is not a function''),
          magneto_confirmed\<lparr>ledger_calls := ledger_calls magneto_confirmed
             @ [GetPaper (paper_key ''MagnetoCorp'' 1)]\<rparr>)
   \<and> acknowledge (holding (magneto_paper 5 ''Hedgematic''))
        ''MagnetoCorp'' 1 ''Hedgematic'' ''DigiBank'' 5000000 ''2020-06-04''
       = (Inl (TypeError ''paper.isEarlyPay is not a function''),
          (holding (magneto_paper 5 ''Hedgematic''))\<lparr>ledger_calls :=
             ledger_calls (holding (magneto_paper 5 ''Hedgematic''))
               @ [GetPaper (paper_key ''MagnetoCorp'' 1)]\<rparr>)
   \<and> pay (holding (magneto_paper 6 ''Hedgematic''))
        ''MagnetoCorp'' 1 ''Hedgematic'' ''DigiBank'' 5000000 ''2020-06-04''
       = (Inl (TypeError ''paper.isAcknowledge is not a function''),
          (holding (magneto_paper 6 ''Hedgematic''))\<lparr>ledger_calls :=
             ledger_calls (holding (magneto_paper 6 ''Hedgematic''))
               @ [GetPaper (paper_key ''MagnetoCorp'' 1)]\<rparr>)"
proof (intro conjI)
  show stored: "paperList magneto_confirmed (paper_key ''MagnetoCorp'' 1)
       = Some (magneto_paper 4 ''Hedgematic'')"
    by (simp add: magneto_confirmed_list)
  show "earlyPay magneto_confirmed ''MagnetoCorp'' 1 ''Hedgematic'' ''DigiBank'' 5000000 ''2020-06-04''
       = (Inl (TypeError ''paper.setEarlyPay is not a function''),
          magneto_confirmed\<lparr>ledger_calls := ledger_calls magneto_confirmed
             @ [GetPaper (paper_key ''MagnetoCorp'' 1)]\<rparr>)"
    unfolding earlyPay_stored [OF stored]
    by (simp add: magneto_paper_simps not_a_function_def)
  show "acknowledge (holding (magneto_paper 5 ''Hedgematic''))
        ''MagnetoCorp'' 1 ''Hedgematic'' ''DigiBank'' 5000000 ''2020-06-04''
       = (Inl (TypeError ''paper.isEarlyPay is not a function''),
          (holding (magneto_paper 5 ''Hedgematic''))\<lparr>ledger_calls :=
             ledger_calls (holding (magneto_paper 5 ''Hedgematic''))
               @ [GetPaper (paper_key ''MagnetoCorp'' 1)]\<rparr>)"
    unfolding acknowledge_stored [OF holding_magneto]
    by (simp add: magneto_paper_simps not_a_function_def)
  show "pay (holding (magneto_paper 6 ''Hedgematic''))
        ''MagnetoCorp'' 1 ''Hedgematic'' ''DigiBank'' 5000000 ''2020-06-04''
       = (Inl (TypeError ''paper.isAcknowledge is not a function''),
          (holding (magneto_paper 6 ''Hedgematic''))\<lparr>ledger_calls :=
             ledger_calls (holding (magneto_paper 6 ''Hedgematic''))
               @ [GetPaper (paper_key ''MagnetoCorp'' 1)]\<rparr>)"
    unfolding pay_stored [OF holding_magneto]
    by (simp add: magneto_paper_simps not_a_function_def)
qed

section \<open>The state enumeration\<close>

text \<open>
  C2 (the seven states and their methods), where the code departs from it. The
  enumeration has the seven values 1 to 7, but the fifth and sixth are named DEPOSIT
  and APPROVE: it has no member EARLYPAY or ACKNOWLEDGE, and the class has the setters
  and predicates of DEPOSIT and APPROVE and none of EARLYPAY and ACKNOWLEDGE. Calling
  \<open>setEarlyPay\<close>, \<open>isEarlyPay\<close>, \<open>setAcknowledge\<close> or \<open>isAcknowledge\<close> on a paper
  throws a TypeError.
\<close>

theorem entity_has_no_earlyPay_state:
  "map fst cpState
     = [''PURCHASE'', ''INVOICE'', ''ISSUE'', ''CONFIRM'', ''DEPOSIT'', ''APPROVE'', ''PAY'']
   \<and> map snd cpState = [1, 2, 3, 4, 5, 6, 7]
   \<and> map_of cpState ''EARLYPAY'' = None \<and> map_of cpState ''ACKNOWLEDGE'' = None
   \<and> map fst state_setters
     = [''setPurchase'', ''setInvoice'', ''setIssue'', ''setConfirm'', ''setDeposit'',
        ''setApprove'', ''setPay'']
   \<and> map fst state_predicates
     = [''isPurchase'', ''isInvoice'', ''isIssue'', ''isConfirm'', ''isDeposit'',
        ''isApprove'', ''isPay'']
   \<and> call_setter ''setEarlyPay'' (magneto_paper 4 ''Hedgematic'')
       = Inl (TypeError ''paper.setEarlyPay is not a function'')
   \<and> call_predicate ''isEarlyPay'' (magneto_paper 4 ''Hedgematic'')
       = Inl (TypeError ''paper.isEarlyPay is not a function'')
   \<and> call_setter ''setAcknowledge'' (magneto_paper 4 ''Hedgematic'')
       = Inl (TypeError ''paper.setAcknowledge is not a function'')
   \<and> call_predicate ''isAcknowledge'' (magneto_paper 4 ''Hedgematic'')
       = Inl (TypeError ''paper.isAcknowledge is not a function'')"
  by (simp add: cpState_def state_setters_def state_predicates_def call_setter_def
        call_predicate_def not_a_function_def)

section \<open>The owner gate\<close>

text \<open>
  C4 (owner gate). For every advancing operation and every stored paper: when the
  supplied current owner is not the stored owner, the operation throws the
  owner-mismatch error right after loading the paper. The list of papers is the one
  before the call, so state and owner of the paper are unchanged, and the only call made
  on the list is the \<open>getPaper\<close>: no update is attempted.
\<close>

theorem owner_gate:
  assumes "paperList c (paper_key i n) = Some p"
    and "owner p \<noteq> Some currentOwner"
  shows "advance a c i n currentOwner newOwner amount dt =
           (Inl (OwnerMismatch
                  (''Paper '' @ i @ num_string n @ '' is not owned by '' @ currentOwner)),
            c\<lparr>ledger_calls := ledger_calls c @ [GetPaper (paper_key i n)]\<rparr>)"
  using assms by (cases a) (simp_all add: advance_stored)


theorem owner_gate_witness:
  "paperList (run [magneto_purchase] initial_ctx) (paper_key ''MagnetoCorp'' 1)
     = Some (magneto_paper 1 ''MagnetoCorp'')
   \<and> owner (magneto_paper 1 ''MagnetoCorp'') \<noteq> Some ''WrongParty''
   \<and> fst (advance Invoice (run [magneto_purchase] initial_ctx)
            ''MagnetoCorp'' 1 ''WrongParty'' ''DigiBank'' 4900000 ''2020-06-01'')
     = Inl (OwnerMismatch ''Paper MagnetoCorp1 is not owned by WrongParty'')"
proof -
  have stored: "paperList (run [magneto_purchase] initial_ctx) (paper_key ''MagnetoCorp'' 1)
     = Some (magneto_paper 1 ''MagnetoCorp'')"
    by (rule run_magneto_purchase)
  have differs: "owner (magneto_paper 1 ''MagnetoCorp'') \<noteq> Some ''WrongParty''"
    by (simp add: magneto_paper_def)
  show ?thesis
    using stored differs
      owner_gate [OF stored differs, of Invoice "''DigiBank''" 4900000 "''2020-06-01''"]
    by (simp add: num_string_1)
qed

section \<open>Skipping a step\<close>

text \<open>
  For invoice, issue and confirm a paper that is at neither the predecessor nor the
  target state is rejected with the message that names the operation's state and prints
  the paper's current state; the list is not updated.
\<close>

lemma skip_rejected:
  assumes "a \<in> {Invoice, Issue, Confirm}"
    and "paperList c (paper_key i n) = Some p"
    and "owner p = Some currentOwner"
    and "currentState p \<noteq> Some (spec_predecessor a)"
    and "currentState p \<noteq> Some (spec_target a)"
  shows "advance a c i n currentOwner newOwner amount dt =
           (Inl (InvalidStateTransition
                  (''Paper '' @ i @ num_string n @ '' is not ''
                     @ (if a = Invoice then ''invoiced'' else if a = Issue then ''issued''
                        else ''confirmed'')
                     @ ''. Current state = '' @ state_string (currentState p))),
            after_get c (paper_key i n))"
  using assms by (auto simp add: advance_stored)

text \<open>
  C5 (skip rejection), at the inputs where the code departs from it. The scenario paper
  right after its purchase is at PURCHASE(1), before the predecessor state of
  \<open>earlyPay\<close>, \<open>acknowledge\<close> and \<open>pay\<close>. Called by its owner, each of the three throws
  a TypeError for the missing method (\<open>isEarlyPay\<close>, \<open>isEarlyPay\<close>, \<open>isAcknowledge\<close>),
  not the invalid-state error with the current state in its message.
\<close>

theorem earlyPay_skip_throws_type_error:
  "paperList (run [magneto_purchase] initial_ctx) (paper_key ''MagnetoCorp'' 1)
       = Some (magneto_paper 1 ''MagnetoCorp'')
   \<and> fst (earlyPay (run [magneto_purchase] initial_ctx)
        ''MagnetoCorp'' 1 ''MagnetoCorp'' ''DigiBank'' 5000000 ''2020-06-04'')
       = Inl (TypeError ''paper.isEarlyPay is not a function'')
   \<and> fst (acknowledge (run [magneto_purchase] initial_ctx)
        ''MagnetoCorp'' 1 ''MagnetoCorp'' ''DigiBank'' 5000000 ''2020-06-04'')
       = Inl (TypeError ''paper.isEarlyPay is not a function'')
   \<and> fst (pay (run [magneto_purchase] initial_ctx)
        ''MagnetoCorp'' 1 ''MagnetoCorp'' ''DigiBank'' 5000000 ''2020-06-04'')
       = Inl (TypeError ''paper.isAcknowledge is not a function'')"
proof (intro conjI)
  show "paperList (run [magneto_purchase] initial_ctx) (paper_key ''MagnetoCorp'' 1)
       = Some (magneto_paper 1 ''MagnetoCorp'')"
    by (rule run_magneto_purchase)
  show "fst (earlyPay (run [magneto_purchase] initial_ctx)
        ''MagnetoCorp'' 1 ''MagnetoCorp'' ''DigiBank'' 5000000 ''2020-06-04'')
       = Inl (TypeError ''paper.isEarlyPay is not a function'')"
    unfolding earlyPay_stored [OF run_magneto_purchase]
    by (simp add: magneto_paper_simps not_a_function_def)
  show "fst (acknowledge (run [magneto_purchase] initial_ctx)
        ''MagnetoCorp'' 1 ''MagnetoCorp'' ''DigiBank'' 5000000 ''2020-06-04'')
       = Inl (TypeError ''paper.isEarlyPay is not a function'')"
    unfolding acknowledge_stored [OF run_magneto_purchase]
    by (simp add: magneto_paper_simps not_a_function_def)
  show "fst (pay (run [magneto_purchase] initial_ctx)
        ''MagnetoCorp'' 1 ''MagnetoCorp'' ''DigiBank'' 5000000 ''2020-06-04'')
       = Inl (TypeError ''paper.isAcknowledge is not a function'')"
    unfolding pay_stored [OF run_magneto_purchase]
    by (simp add: magneto_paper_simps not_a_function_def)
qed

section \<open>States never decrease\<close>

text \<open>
  C6 (monotone state). In a well-formed list, the paper stored under a key is still
  stored under it after any transaction, successful or not, of any of the seven
  operations, and its state is the same or exactly one higher. After any sequence of
  transactions its state is the same or higher. (A purchase creates a paper at PURCHASE
  under a free key and fails on an occupied one, so it never touches a stored paper.)
\<close>

theorem state_monotone:
  assumes "ledger_wf c" and "paperList c k = Some p"
  shows "(\<exists>p'. paperList (snd (invoke x c)) k = Some p'
            \<and> (currentState p' = currentState p
                \<or> (\<exists>s. currentState p = Some s \<and> currentState p' = Some (Suc s))))
       \<and> (\<exists>p'. paperList (run xs c) k = Some p'
            \<and> (currentState p' = currentState p
                \<or> (\<exists>s s'. currentState p = Some s \<and> currentState p' = Some s' \<and> s \<le> s')))"
  using one_step [OF assms] many_steps [OF assms] by blast

theorem state_monotone_witness:
  "ledger_wf (holding (magneto_paper 2 ''DigiBank''))
   \<and> paperList (holding (magneto_paper 2 ''DigiBank'')) (paper_key ''MagnetoCorp'' 1)
       = Some (magneto_paper 2 ''DigiBank'')
   \<and> paperList
         (snd (invoke
            (AdvanceCall Issue ''MagnetoCorp'' 1 ''DigiBank'' ''BigFund'' 4900000 ''2020-06-02'')
            (holding (magneto_paper 2 ''DigiBank''))))
         (paper_key ''MagnetoCorp'' 1)
       = Some (magneto_paper 3 ''BigFund'')
   \<and> (\<exists>p'. paperList
               (snd (invoke
                  (AdvanceCall Issue ''MagnetoCorp'' 1 ''DigiBank'' ''BigFund'' 4900000 ''2020-06-02'')
                  (holding (magneto_paper 2 ''DigiBank''))))
               (paper_key ''MagnetoCorp'' 1) = Some p'
          \<and> (currentState p' = currentState (magneto_paper 2 ''DigiBank'')
              \<or> (\<exists>s. currentState (magneto_paper 2 ''DigiBank'') = Some s
                   \<and> currentState p' = Some (Suc s))))"
proof -
  have wf: "ledger_wf (holding (magneto_paper 2 ''DigiBank''))"
    by (simp add: ledger_wf_def holding_def)
  have stored: "paperList (holding (magneto_paper 2 ''DigiBank'')) (paper_key ''MagnetoCorp'' 1)
       = Some (magneto_paper 2 ''DigiBank'')"
    by (rule holding_magneto)
  have result: "paperList
         (snd (invoke
            (AdvanceCall Issue ''MagnetoCorp'' 1 ''DigiBank'' ''BigFund'' 4900000 ''2020-06-02'')
            (holding (magneto_paper 2 ''DigiBank''))))
         (paper_key ''MagnetoCorp'' 1)
       = Some (magneto_paper 3 ''BigFund'')"
    by (simp add: issue_stored [OF stored] magneto_paper_simps updatePaper_stored magneto_key
          holding_magneto)
  from state_monotone [OF wf stored,
      of "AdvanceCall Issue ''MagnetoCorp'' 1 ''DigiBank'' ''BigFund'' 4900000 ''2020-06-02''" "[]"]
  show ?thesis using wf stored result by blast
qed

section \<open>What an advancing operation leaves alone\<close>

text \<open>
  Over any sequence of transactions on a well-formed list, a stored paper changes in
  \<open>currentState\<close> and \<open>owner\<close> only: the other fields stay as the purchase created
  them.
\<close>

lemma creation_fields_kept:
  assumes "ledger_wf c" and "paperList c k = Some p"
  shows "\<exists>p'. paperList (run xs c) k = Some p'
            \<and> p' = p\<lparr>currentState := currentState p', owner := owner p'\<rparr>"
  using assms
proof (induction xs arbitrary: c p)
  case Nil
  then show ?case by simp
next
  case (Cons x xs)
  from invoke_stored [OF Cons.prems, of x] obtain q where
    q: "paperList (snd (invoke x c)) k = Some q"
    and step: "q = p\<lparr>currentState := currentState q, owner := owner q\<rparr>"
    by (cases rule: disjE) auto
  from Cons.prems have "ledger_wf (snd (invoke x c))" by (simp add: invoke_wf)
  from Cons.IH [OF this q] obtain p' where
    p': "paperList (run xs (snd (invoke x c))) k = Some p'"
    and rest: "p' = q\<lparr>currentState := currentState p', owner := owner p'\<rparr>"
    by blast
  from step rest have "p' = p\<lparr>currentState := currentState p', owner := owner p'\<rparr>"
    by (metis paper.update_convs(8) paper.update_convs(9) paper.surjective paper.select_convs)
  with p' show ?case by auto
qed

text \<open>
  C7 (frame). When an advancing operation succeeds on the paper stored under its key,
  the paper it stores and returns differs from the loaded one in \<open>currentState\<close> and
  \<open>owner\<close> only: issuer, paper number, issue and maturity date and face value are
  those of the loaded paper. The amount and the date-time passed to the operation do
  not reach the result: any other amount and date-time give the same outcome and the
  same context.
\<close>

theorem advancing_frame:
  assumes "paperList c (paper_key i n) = Some p"
    and "advance a c i n currentOwner newOwner amount dt = (Inr buf, c')"
  shows "(\<exists>p'. paperList c' = (paperList c)(key p \<mapsto> p')
            \<and> buf = toBuffer p'
            \<and> p' = p\<lparr>currentState := currentState p', owner := Some newOwner\<rparr>
            \<and> issuer p' = issuer p \<and> paperNumber p' = paperNumber p
            \<and> issueDateTime p' = issueDateTime p \<and> maturityDateTime p' = maturityDateTime p
            \<and> faceValue p' = faceValue p)
       \<and> advance a c i n currentOwner newOwner amount' dt' = (Inr buf, c')"
proof -
  from advance_result [OF assms(2)] assms(1)
  have "paperList c' = (paperList c)(key p \<mapsto> moved a newOwner p) \<and> buf = toBuffer (moved a newOwner p)"
    by auto
  then have "\<exists>p'. paperList c' = (paperList c)(key p \<mapsto> p')
            \<and> buf = toBuffer p'
            \<and> p' = p\<lparr>currentState := currentState p', owner := Some newOwner\<rparr>
            \<and> issuer p' = issuer p \<and> paperNumber p' = paperNumber p
            \<and> issueDateTime p' = issueDateTime p \<and> maturityDateTime p' = maturityDateTime p
            \<and> faceValue p' = faceValue p"
    by (intro exI [of _ "moved a newOwner p"]) simp
  moreover have "advance a c i n currentOwner newOwner amount' dt' = (Inr buf, c')"
    using assms(2) advance_ignores_amount [of a c i n currentOwner newOwner amount' dt' amount dt]
    by simp
  ultimately show ?thesis by blast
qed


theorem advancing_frame_witness:
  "paperList (holding (magneto_paper 2 ''DigiBank'')) (paper_key ''MagnetoCorp'' 1)
       = Some (magneto_paper 2 ''DigiBank'')
   \<and> fst (advance Issue (holding (magneto_paper 2 ''DigiBank''))
            ''MagnetoCorp'' 1 ''DigiBank'' ''BigFund'' 4900000 ''2020-06-02'')
       = Inr (toBuffer (magneto_paper 3 ''BigFund''))
   \<and> advance Issue (holding (magneto_paper 2 ''DigiBank''))
            ''MagnetoCorp'' 1 ''DigiBank'' ''BigFund'' 1 ''never''
       = advance Issue (holding (magneto_paper 2 ''DigiBank''))
            ''MagnetoCorp'' 1 ''DigiBank'' ''BigFund'' 4900000 ''2020-06-02''"
proof -
  have stored: "paperList (holding (magneto_paper 2 ''DigiBank'')) (paper_key ''MagnetoCorp'' 1)
       = Some (magneto_paper 2 ''DigiBank'')"
    by (rule holding_magneto)
  obtain c' where result:
    "advance Issue (holding (magneto_paper 2 ''DigiBank''))
        ''MagnetoCorp'' 1 ''DigiBank'' ''BigFund'' 4900000 ''2020-06-02''
       = (Inr (toBuffer (magneto_paper 3 ''BigFund'')), c')"
    by (simp add: issue_stored [OF stored] magneto_paper_simps updatePaper_stored magneto_key
          holding_magneto)
  from advancing_frame [OF stored result, of 1 "''never''"]
  show ?thesis using stored result by simp
qed

section \<open>The key codec\<close>

lemma digit_char_cases:
  "d < 10 \<Longrightarrow> d = 0 \<or> d = 1 \<or> d = 2 \<or> d = 3 \<or> d = 4 \<or> d = 5 \<or> d = 6 \<or> d = 7 \<or> d = 8 \<or> d = (9::nat)"
  by arith

lemma digit_char_inj:
  assumes "d < 10" and "e < 10" and "digit_char d = digit_char e"
  shows "d = e"
  using digit_char_cases [OF assms(1)] digit_char_cases [OF assms(2)] assms(3)
  by (elim disjE) (simp_all add: digit_char_def)

lemma digit_char_in:
  assumes "d < 10"
  shows "digit_char d \<in> set ''0123456789''"
  using digit_char_cases [OF assms] by (elim disjE) (simp_all add: digit_char_def)

lemma nat_digits_nonempty: "nat_digits n \<noteq> []" "[] \<noteq> nat_digits n"
  by (subst nat_digits.simps, simp)+

lemma nat_digits_set: "set (nat_digits n) \<subseteq> set ''0123456789''"
proof (induction n rule: nat_digits.induct)
  case (1 n)
  show ?case
  proof (cases "n < 10")
    case True
    then show ?thesis
      using digit_char_in [of n] by (subst nat_digits.simps) simp
  next
    case False
    then have "set (nat_digits (n div 10)) \<subseteq> set ''0123456789''" by (rule "1.IH")
    moreover have "digit_char (n mod 10) \<in> set ''0123456789''" by (rule digit_char_in) simp
    ultimately show ?thesis
      using False by (subst nat_digits.simps) simp
  qed
qed

lemma nat_digits_inj: "nat_digits m = nat_digits n \<Longrightarrow> m = n"
proof (induction m arbitrary: n rule: nat_digits.induct)
  case (1 m)
  show ?case
  proof (cases "m < 10")
    case small: True
    show ?thesis
    proof (cases "n < 10")
      case True
      with small "1.prems" show ?thesis
        by (simp add: nat_digits.simps [of m] nat_digits.simps [of n] digit_char_inj)
    next
      case False
      with small "1.prems" show ?thesis
        by (simp add: nat_digits.simps [of m] nat_digits.simps [of n] nat_digits_nonempty)
    qed
  next
    case large: False
    show ?thesis
    proof (cases "n < 10")
      case True
      with large "1.prems" show ?thesis
        by (simp add: nat_digits.simps [of m] nat_digits.simps [of n] nat_digits_nonempty)
    next
      case False
      with large "1.prems" have eq: "nat_digits (m div 10) = nat_digits (n div 10)"
        and last: "digit_char (m mod 10) = digit_char (n mod 10)"
        by (simp_all add: nat_digits.simps [of m] nat_digits.simps [of n])
      from large eq have "m div 10 = n div 10" by (rule "1.IH")
      moreover from last have "m mod 10 = n mod 10" by (rule digit_char_inj [rotated 2]) simp_all
      ultimately show ?thesis by (metis div_mult_mod_eq)
    qed
  qed
qed

lemma num_string_inj: "num_string m = num_string n \<Longrightarrow> m = n"
proof -
  have no_minus: "\<And>k r. nat_digits k \<noteq> CHR ''-'' # r"
  proof
    fix k r assume "nat_digits k = CHR ''-'' # r"
    then have "CHR ''-'' \<in> set (nat_digits k)" by simp
    with nat_digits_set [of k] show False by auto
  qed
  assume eq: "num_string m = num_string n"
  show ?thesis
  proof (cases "m < 0")
    case mneg: True
    show ?thesis
    proof (cases "n < 0")
      case True
      with mneg eq have "nat (- m) = nat (- n)" by (simp add: num_string_def nat_digits_inj)
      with mneg True show ?thesis by simp
    next
      case False
      with mneg eq no_minus [of "nat n" "nat_digits (nat (- m))"] show ?thesis
        by (simp add: num_string_def)
    qed
  next
    case mpos: False
    show ?thesis
    proof (cases "n < 0")
      case True
      with mpos eq no_minus [of "nat m" "nat_digits (nat (- n))"] show ?thesis
        by (simp add: num_string_def)
    next
      case False
      with mpos eq have "nat m = nat n" by (simp add: num_string_def nat_digits_inj)
      with mpos False show ?thesis by simp
    qed
  qed
qed

lemma num_string_no_separator: "key_separator \<notin> set (num_string n)"
  using nat_digits_set [of "nat n"] nat_digits_set [of "nat (- n)"]
  by (auto simp add: num_string_def key_separator_def)

lemma nat_digits_leading_zero: "hd (nat_digits n) = CHR ''0'' \<Longrightarrow> n = 0"
proof (induction n rule: nat_digits.induct)
  case (1 n)
  show ?case
  proof (cases "n < 10")
    case True
    with "1.prems" digit_char_inj [of n 0] show ?thesis
      by (simp add: nat_digits.simps [of n] digit_char_def)
  next
    case False
    with "1.prems" have "hd (nat_digits (n div 10)) = CHR ''0''"
      by (simp add: nat_digits.simps [of n] nat_digits_nonempty)
    with False have "n div 10 = 0" by (rule "1.IH")
    with False show ?thesis by simp
  qed
qed

lemma split_at_first:
  assumes "x \<notin> set a" and "x \<notin> set b" and "a @ x # r = b @ x # s"
  shows "a = b \<and> r = s"
  using assms
proof (induction a arbitrary: b)
  case Nil
  then show ?case by (cases b) auto
next
  case (Cons y a)
  then show ?case by (cases b) auto
qed

lemma split_at_last:
  assumes "x \<notin> set r1" and "x \<notin> set r2" and "i1 @ x # r1 = i2 @ x # r2"
  shows "i1 = i2 \<and> r1 = r2"
proof -
  from assms(3) have "rev (i1 @ x # r1) = rev (i2 @ x # r2)" by simp
  then have "rev r1 @ x # rev i1 = rev r2 @ x # rev i2" by simp
  moreover from assms(1,2) have "x \<notin> set (rev r1)" and "x \<notin> set (rev r2)" by simp_all
  ultimately have "rev r1 = rev r2 \<and> rev i1 = rev i2"
    using split_at_first [of x "rev r1" "rev r2" "rev i1" "rev i2"] by blast
  then show ?thesis by simp
qed

text \<open>
  C9 (keys). \<open>makeKey\<close> is a function of the pair, and two pairs of an issuer and a
  paper number have the same key only if they are the same pair: the number is printed
  in decimal without the separator (\<open>num_string_no_separator\<close>) and without a leading
  zero (\<open>nat_digits_leading_zero\<close>), so the last separator of a key splits it into its
  two components.
\<close>

theorem makeKey_injective:
  "(makeKey [KeyStr i1, KeyNum n1] = makeKey [KeyStr i2, KeyNum n2]) = (i1 = i2 \<and> n1 = n2)"
proof
  assume "makeKey [KeyStr i1, KeyNum n1] = makeKey [KeyStr i2, KeyNum n2]"
  then have "i1 @ key_separator # num_string n1 = i2 @ key_separator # num_string n2"
    by (simp add: makeKey_def)
  with num_string_no_separator [of n1] num_string_no_separator [of n2]
  have "i1 = i2 \<and> num_string n1 = num_string n2" by (rule split_at_last)
  then show "i1 = i2 \<and> n1 = n2" by (simp add: num_string_inj)
next
  assume "i1 = i2 \<and> n1 = n2"
  then show "makeKey [KeyStr i1, KeyNum n1] = makeKey [KeyStr i2, KeyNum n2]" by simp
qed

section \<open>Reading back what \<open>JSON.stringify\<close> wrote\<close>

lemma skip_ws_keep: "\<not> is_ws c \<Longrightarrow> skip_ws (c # r) = c # r"
  by (simp add: skip_ws_def)

lemma hex_value_hex_char:
  assumes "d < 16"
  shows "hex_value (hex_char d) = Some d"
proof -
  from assms have "d = 0 \<or> d = 1 \<or> d = 2 \<or> d = 3 \<or> d = 4 \<or> d = 5 \<or> d = 6 \<or> d = 7
      \<or> d = 8 \<or> d = 9 \<or> d = 10 \<or> d = 11 \<or> d = 12 \<or> d = 13 \<or> d = 14 \<or> d = 15"
    by arith
  then show ?thesis
    by (elim disjE) (simp_all add: hex_char_def hex_value_def is_digit_def)
qed

lemma hex_value_zero: "hex_value CHR ''0'' = Some 0"
  by (simp add: hex_value_def is_digit_def)

lemma utf8_ascii: "(of_char c :: nat) < 128 \<Longrightarrow> utf8 (of_char c) = [c]"
  by (simp add: utf8_def)

lemma parse_chars_control:
  assumes "(of_char c :: nat) < 32"
  shows "parse_chars (CHR 0x5C # CHR ''u'' # CHR ''0'' # CHR ''0''
            # hex_char (of_char c div 16) # hex_char (of_char c mod 16) # t)
         = map_option (\<lambda>(s, u). (c # s, u)) (parse_chars t)"
proof -
  from assms have hi: "hex_value (hex_char (of_char c div 16)) = Some (of_char c div 16)"
    by (intro hex_value_hex_char) simp
  have lo: "hex_value (hex_char (of_char c mod 16)) = Some (of_char c mod 16)"
    by (intro hex_value_hex_char) simp
  from assms have "utf8 (of_char c) = [c]" by (simp add: utf8_ascii)
  then show ?thesis
    by (simp add: hi lo hex_value_zero)
qed

lemma parse_chars_escape:
  "parse_chars (json_escape c @ t) = map_option (\<lambda>(s, u). (c # s, u)) (parse_chars t)"
proof -
  consider (quote) "c = CHR 0x22" | (backslash) "c = CHR 0x5C" | (b) "c = CHR 0x08"
    | (f) "c = CHR 0x0C" | (n) "c = CHR 0x0A" | (r) "c = CHR 0x0D" | (t) "c = CHR 0x09"
    | (control) "c \<notin> {CHR 0x22, CHR 0x5C, CHR 0x08, CHR 0x0C, CHR 0x0A, CHR 0x0D, CHR 0x09}"
        "(of_char c :: nat) < 32"
    | (plain) "c \<notin> {CHR 0x22, CHR 0x5C, CHR 0x08, CHR 0x0C, CHR 0x0A, CHR 0x0D, CHR 0x09}"
        "\<not> (of_char c :: nat) < 32"
    by blast
  then show ?thesis
  proof cases
    case control
    then show ?thesis
      using parse_chars_control [OF control(2), of t] by (simp add: json_escape_def)
  next
    case plain
    then show ?thesis by (simp add: json_escape_def)
  qed (simp_all add: json_escape_def unescape_def)
qed

lemma parse_chars_quoted:
  "parse_chars (concat (map json_escape s) @ CHR 0x22 # rest) = Some (s, rest)"
  by (induction s) (simp_all add: parse_chars_escape)

lemma digit_char_value:
  assumes "d < 10"
  shows "is_digit (digit_char d)" and "digit_value (digit_char d) = d"
  using digit_char_cases [OF assms]
  by (elim disjE; simp add: digit_char_def is_digit_def digit_value_def)+

lemma nat_digits_is_digit:
  assumes "c \<in> set (nat_digits n)"
  shows "is_digit c"
proof -
  from nat_digits_set assms have "c \<in> set ''0123456789''" by (rule subsetD)
  then show ?thesis by (simp only: is_digit_def)
qed

lemma digits_value_snoc: "digits_value (ds @ [d]) = 10 * digits_value ds + digit_value d"
  by (simp add: digits_value_def)

lemma digits_value_nat_digits: "digits_value (nat_digits n) = n"
proof (induction n rule: nat_digits.induct)
  case (1 n)
  show ?case
  proof (cases "n < 10")
    case True
    then show ?thesis
      by (simp add: nat_digits.simps [of n] digits_value_def digit_char_value)
  next
    case False
    then have "digits_value (nat_digits (n div 10)) = n div 10" by (rule "1.IH")
    with False show ?thesis
      by (simp add: nat_digits.simps [of n] digits_value_snoc digit_char_value)
  qed
qed

lemma span_digits:
  assumes "ends_number t"
  shows "takeWhile is_digit (nat_digits n @ t) = nat_digits n"
    and "dropWhile is_digit (nat_digits n @ t) = t"
proof -
  have all: "\<forall>c \<in> set (nat_digits n). is_digit c" by (simp add: nat_digits_is_digit)
  from assms have stop: "takeWhile is_digit t = []" "dropWhile is_digit t = t"
    by (cases t; simp add: ends_number_def)+
  from all stop show "takeWhile is_digit (nat_digits n @ t) = nat_digits n"
    by (simp add: takeWhile_append2)
  from all stop show "dropWhile is_digit (nat_digits n @ t) = t"
    by (simp add: dropWhile_append2)
qed

lemma nat_digits_zero: "nat_digits 0 = ''0''"
  by (simp add: nat_digits.simps digit_char_def)

lemma parse_nat_digits:
  assumes "ends_number t"
  shows "parse_nat (nat_digits n @ t) = Some (n, t)"
proof (cases "n = 0")
  case True
  then show ?thesis by (simp add: nat_digits_zero parse_nat_def)
next
  case False
  obtain c r where cr: "nat_digits n = c # r"
    using nat_digits_nonempty(1) [of n] by (cases "nat_digits n") auto
  with False nat_digits_leading_zero [of n] have nz: "c \<noteq> CHR ''0''" by auto
  from cr have dig: "is_digit c" by (intro nat_digits_is_digit [of c n]) simp
  have "parse_nat (nat_digits n @ t)
          = Some (digits_value (takeWhile is_digit (nat_digits n @ t)),
                  dropWhile is_digit (nat_digits n @ t))"
    unfolding cr using nz dig by (simp add: parse_nat_def)
  then show ?thesis by (simp add: span_digits [OF assms] digits_value_nat_digits)
qed

lemma parse_number_num_string:
  assumes "ends_number t"
  shows "parse_number (num_string n @ t) = Some (n, t)"
proof -
  from assms have stop: "(case t of [] \<Rightarrow> Some (n, t)
           | c # u \<Rightarrow> if c \<in> set ''.eE'' then None else Some (n, t)) = Some (n, t)"
    by (cases t) (simp_all add: ends_number_def)
  show ?thesis
  proof (cases "n < 0")
    case True
    then have "parse_number (num_string n @ t)
        = (case t of [] \<Rightarrow> Some (n, t)
           | c # u \<Rightarrow> if c \<in> set ''.eE'' then None else Some (n, t))"
      by (simp add: parse_number_def num_string_def parse_nat_digits [OF assms])
    with stop show ?thesis by simp
  next
    case False
    obtain c r where cr: "nat_digits (nat n) = c # r"
      using nat_digits_nonempty(1) [of "nat n"] by (cases "nat_digits (nat n)") auto
    from cr have "is_digit c" by (intro nat_digits_is_digit [of c "nat n"]) simp
    then have "c \<noteq> CHR ''-''"
      by (auto simp add: is_digit_def)
    moreover have "parse_nat (c # r @ t) = Some (nat n, t)"
      using parse_nat_digits [OF assms, of "nat n"] by (simp add: cr)
    ultimately have "parse_number (num_string n @ t)
        = (case t of [] \<Rightarrow> Some (n, t)
           | c # u \<Rightarrow> if c \<in> set ''.eE'' then None else Some (n, t))"
      using False by (simp add: parse_number_def num_string_def cr)
    with stop show ?thesis by simp
  qed
qed

lemma parse_value_string: "parse_value (Suc f) (json_quote s @ t) = Some (JStr s, t)"
  by (simp add: parse_value.simps json_quote_def skip_ws_keep is_ws_def parse_chars_quoted)

lemma num_string_first:
  obtains c r where "num_string n = c # r" and "c \<in> set ''-0123456789''"
proof (cases "n < 0")
  case True
  then show ?thesis by (intro that [of "CHR ''-''" "nat_digits (nat (- n))"]) (simp_all add: num_string_def)
next
  case False
  obtain c r where cr: "nat_digits (nat n) = c # r"
    using nat_digits_nonempty(1) [of "nat n"] by (cases "nat_digits (nat n)") auto
  then have "is_digit c" by (intro nat_digits_is_digit [of c "nat n"]) simp
  then have "c \<in> set ''-0123456789''" by (auto simp add: is_digit_def)
  with cr False show ?thesis by (intro that [of c r]) (simp_all add: num_string_def)
qed

lemma parse_value_number:
  assumes "ends_number t"
  shows "parse_value (Suc f) (num_string n @ t) = Some (JNum n, t)"
proof -
  obtain c r where cr: "num_string n = c # r" and c: "c \<in> set ''-0123456789''"
    by (rule num_string_first)
  from c have "\<not> is_ws c" "c \<noteq> CHR ''{''" "c \<noteq> CHR ''[''" "c \<noteq> CHR 0x22"
    "c \<noteq> CHR ''n''" "c \<noteq> CHR ''t''" "c \<noteq> CHR ''f''"
    by (auto simp add: is_ws_def)
  then have "parse_value (Suc f) (c # r @ t)
               = map_option (\<lambda>(n, u). (JNum n, u)) (parse_number (c # r @ t))"
    by (simp add: parse_value.simps skip_ws_keep)
  also have "parse_number (c # r @ t) = Some (n, t)"
    using parse_number_num_string [OF assms, of n] by (simp add: cr)
  finally show ?thesis by (simp add: cr)
qed

lemma parse_value_scalar:
  assumes "scalar v" and "ends_number t"
  shows "parse_value (Suc f) (JSON_stringify v @ t) = Some (v, t)"
  using assms by (cases v) (simp_all add: parse_value_string parse_value_number)

lemma parse_member_last:
  assumes "scalar v"
  shows "parse_members (Suc (Suc f)) (member_text (k, v) @ CHR ''}'' # t) = Some ([(k, v)], t)"
proof -
  have "parse_value (Suc f) (JSON_stringify v @ CHR ''}'' # t) = Some (v, CHR ''}'' # t)"
    using assms by (rule parse_value_scalar) (simp add: ends_number_def is_digit_def)
  then show ?thesis
    by (simp add: parse_members.simps json_quote_def skip_ws_keep is_ws_def parse_chars_quoted)
qed

lemma parse_member_more:
  assumes "scalar v"
  shows "parse_members (Suc (Suc f)) (member_text (k, v) @ CHR '','' # t)
           = map_option (\<lambda>(ms, u). ((k, v) # ms, u)) (parse_members (Suc f) t)"
proof -
  have "parse_value (Suc f) (JSON_stringify v @ CHR '','' # t) = Some (v, CHR '','' # t)"
    using assms by (rule parse_value_scalar) (simp add: ends_number_def is_digit_def)
  then show ?thesis
    by (simp add: parse_members.simps json_quote_def skip_ws_keep is_ws_def parse_chars_quoted)
qed

lemma parse_members_flat:
  assumes "ms \<noteq> []" and "\<forall>kv \<in> set ms. scalar (snd kv)" and "length ms < g"
  shows "parse_members g (join '','' (map member_text ms) @ CHR ''}'' # t) = Some (ms, t)"
  using assms
proof (induction ms arbitrary: g)
  case Nil
  then show ?case by simp
next
  case (Cons kv ms)
  obtain k v where kv: "kv = (k, v)" by (cases kv)
  with Cons.prems have v: "scalar v" by simp
  from Cons.prems obtain f where g: "g = Suc (Suc f)" and f: "length ms < Suc f"
    by (cases g; cases "g - 1"; simp)
  show ?case
  proof (cases ms)
    case Nil
    with kv g show ?thesis using parse_member_last [OF v, of f k t] by simp
  next
    case (Cons kv' ms')
    with Cons.IH [of "Suc f"] Cons.prems f
    have "parse_members (Suc f) (join '','' (map member_text ms) @ CHR ''}'' # t) = Some (ms, t)"
      by simp
    with kv g Cons show ?thesis
      using parse_member_more [OF v, of f k "join '','' (map member_text ms) @ CHR ''}'' # t"]
      by simp
  qed
qed

lemma length_join:
  assumes "\<forall>x \<in> set xs. x \<noteq> []"
  shows "length xs \<le> length (join sep xs)"
  using assms
proof (induction sep xs rule: join.induct)
  case (2 sep x)
  then show ?case by (cases x) simp_all
next
  case (3 sep x y ys)
  then show ?case by (cases x) simp_all
qed simp

lemma parse_object_text:
  assumes "parse_members (Suc f) s = Some (ms, t)" and "s = CHR 0x22 # r"
  shows "parse_value (Suc (Suc f)) (CHR ''{'' # s) = Some (JObj ms, t)"
proof -
  have "skip_ws s = CHR 0x22 # r"
    unfolding assms(2) by (simp add: skip_ws_keep is_ws_def)
  with assms(1) show ?thesis
    by (simp add: parse_value.simps skip_ws_keep [of "CHR ''{''"] is_ws_def)
qed

lemma JSON_parse_flat:
  assumes "ms \<noteq> []" and "\<forall>kv \<in> set ms. scalar (snd kv)"
  shows "JSON_parse (JSON_stringify (JObj ms)) = Some (JObj ms)"
proof -
  let ?body = "join '','' (map member_text ms)"
  have "\<forall>x \<in> set (map member_text ms). x \<noteq> []"
    by (auto simp add: json_quote_def)
  then have "length (map member_text ms) \<le> length ?body" by (rule length_join)
  then have fuel: "length ms < Suc (length ?body)" by simp
  obtain kv ms' where ms: "ms = kv # ms'" using assms(1) by (cases ms) auto
  obtain k v where kv: "kv = (k, v)" by (cases kv)
  have first: "\<exists>r. ?body @ ''}'' = CHR 0x22 # r"
    by (cases ms') (simp_all add: ms kv json_quote_def)
  then obtain r where r: "?body @ ''}'' = CHR 0x22 # r" ..
  have members: "parse_members (Suc (length ?body)) (?body @ ''}'') = Some (ms, [])"
    using parse_members_flat [OF assms fuel, of "[]"] by simp
  have "parse_value (Suc (Suc (length ?body))) (CHR ''{'' # ?body @ ''}'')
          = Some (JObj ms, [])"
    using members r by (rule parse_object_text)
  then show ?thesis
    by (simp add: JSON_parse_def skip_ws_def)
qed

lemma parse_element_last:
  "parse_elements (Suc (Suc f)) (num_string n @ CHR '']'' # t) = Some ([JNum n], t)"
proof -
  have "parse_value (Suc f) (num_string n @ CHR '']'' # t) = Some (JNum n, CHR '']'' # t)"
    by (rule parse_value_number) (simp add: ends_number_def is_digit_def)
  then show ?thesis
    by (simp add: parse_elements.simps skip_ws_keep is_ws_def)
qed

lemma parse_element_more:
  "parse_elements (Suc (Suc f)) (num_string n @ CHR '','' # t)
     = map_option (\<lambda>(vs, u). (JNum n # vs, u)) (parse_elements (Suc f) t)"
proof -
  have "parse_value (Suc f) (num_string n @ CHR '','' # t) = Some (JNum n, CHR '','' # t)"
    by (rule parse_value_number) (simp add: ends_number_def is_digit_def)
  then show ?thesis
    by (simp add: parse_elements.simps skip_ws_keep is_ws_def)
qed

lemma parse_elements_numbers:
  assumes "ns \<noteq> []" and "length ns < g"
  shows "parse_elements g (join '','' (map num_string ns) @ CHR '']'' # t)
           = Some (map JNum ns, t)"
  using assms
proof (induction ns arbitrary: g)
  case Nil
  then show ?case by simp
next
  case (Cons n ns)
  from Cons.prems obtain f where g: "g = Suc (Suc f)" and f: "length ns < Suc f"
    by (cases g; cases "g - 1"; simp)
  show ?case
  proof (cases ns)
    case Nil
    with g show ?thesis using parse_element_last [of f n t] by simp
  next
    case (Cons n' ns')
    with Cons.IH [of "Suc f"] f
    have "parse_elements (Suc f) (join '','' (map num_string ns) @ CHR '']'' # t)
            = Some (map JNum ns, t)"
      by simp
    with g Cons show ?thesis
      using parse_element_more [of f n "join '','' (map num_string ns) @ CHR '']'' # t"]
      by simp
  qed
qed

lemma num_string_nonempty: "num_string n \<noteq> []"
  by (rule num_string_first [of n]) simp

lemma parse_value_numbers:
  assumes "length ns < f"
  shows "parse_value (Suc f) (CHR ''['' # join '','' (map num_string ns) @ CHR '']'' # t)
           = Some (JArr (map JNum ns), t)"
proof (cases ns)
  case Nil
  then show ?thesis
    by (simp add: parse_value.simps skip_ws_keep is_ws_def)
next
  case (Cons n ns')
  obtain c r where cr: "num_string n = c # r" and c: "c \<in> set ''-0123456789''"
    by (rule num_string_first)
  have "\<exists>u. join '','' (map num_string ns) @ CHR '']'' # t = c # u"
    by (cases ns') (simp_all add: Cons cr)
  then obtain u where u: "join '','' (map num_string ns) @ CHR '']'' # t = c # u" ..
  from c have "\<not> is_ws c" "c \<noteq> CHR '']''" by (auto simp add: is_ws_def)
  then have sk: "skip_ws (c # u) = c # u" "c \<noteq> CHR '']''" by (simp_all add: skip_ws_keep)
  from Cons assms
  have "parse_elements f (join '','' (map num_string ns) @ CHR '']'' # t) = Some (map JNum ns, t)"
    by (intro parse_elements_numbers) simp_all
  then have "parse_elements f (c # u) = Some (map JNum ns, t)" by (simp only: u)
  then have "parse_value (Suc f) (CHR ''['' # c # u) = Some (JArr (map JNum ns), t)"
    using sk by (simp add: parse_value.simps skip_ws_keep [of "CHR ''[''"] is_ws_def)
  then show ?thesis by (simp only: u)
qed

lemma parse_data_member:
  assumes "length ns < f"
  shows "parse_members (Suc (Suc f))
           (json_quote ''data'' @ CHR '':'' # CHR ''['' # join '','' (map num_string ns) @ '']}'')
         = Some ([(''data'', JArr (map JNum ns))], [])"
proof -
  have "parse_value (Suc f) (CHR ''['' # join '','' (map num_string ns) @ CHR '']'' # ''}'')
           = Some (JArr (map JNum ns), ''}'')"
    using assms by (rule parse_value_numbers)
  then show ?thesis
    by (simp add: parse_members.simps json_quote_def json_escape_def skip_ws_keep is_ws_def)
qed

lemma JSON_parse_buffer_text:
  "JSON_parse (JSON_stringify (JObj [(''type'', JStr ''Buffer''), (''data'', JArr (map JNum ns))]))
     = Some (JObj [(''type'', JStr ''Buffer''), (''data'', JArr (map JNum ns))])"
proof -
  let ?nums = "join '','' (map num_string ns)"
  let ?data = "json_quote ''data'' @ CHR '':'' # CHR ''['' # ?nums @ '']}''"
  let ?members = "member_text (''type'', JStr ''Buffer'') @ CHR '','' # ?data"
  have "\<forall>x \<in> set (map num_string ns). x \<noteq> []" by (simp add: num_string_nonempty)
  then have "length (map num_string ns) \<le> length ?nums" by (rule length_join)
  then have fuel: "length ns < length ?nums + 1" by simp
  have shape: "JSON_stringify (JObj [(''type'', JStr ''Buffer''), (''data'', JArr (map JNum ns))])
                = CHR ''{'' # ?members"
    by (simp add: comp_def)
  have len: "length (CHR ''{'' # ?members) = Suc (Suc (Suc (Suc (length ?nums + 1 + 22))))"
    by (simp add: json_quote_def json_escape_def)
  have data: "parse_members (Suc (Suc (length ?nums + 1 + 22))) ?data
                = Some ([(''data'', JArr (map JNum ns))], [])"
    using fuel by (intro parse_data_member) simp
  have "parse_members (Suc (Suc (Suc (length ?nums + 1 + 22)))) ?members
          = Some ([(''type'', JStr ''Buffer''), (''data'', JArr (map JNum ns))], [])"
    using parse_member_more [of "JStr ''Buffer''" "Suc (length ?nums + 1 + 22)" "''type''" ?data]
      data
    by simp
  moreover obtain r where "?members = CHR 0x22 # r" by (simp add: json_quote_def)
  ultimately have "parse_value (Suc (Suc (Suc (Suc (length ?nums + 1 + 22))))) (CHR ''{'' # ?members)
          = Some (JObj [(''type'', JStr ''Buffer''), (''data'', JArr (map JNum ns))], [])"
    by (rule parse_object_text)
  then show ?thesis
    unfolding shape JSON_parse_def len by (simp add: skip_ws_def)
qed

section \<open>Serializing and decoding a paper\<close>

lemma toJSON_members:
  obtains ms where "toJSON p = JObj ms" and "ms \<noteq> []" and "\<forall>kv \<in> set ms. scalar (snd kv)"
  by (cases "currentState p"; cases "owner p") (simp_all add: toJSON_def)

lemma JSON_parse_toBuffer: "JSON_parse (toBuffer p) = Some (toJSON p)"
proof -
  obtain ms where ms: "toJSON p = JObj ms"
    and flat: "ms \<noteq> []" "\<forall>kv \<in> set ms. scalar (snd kv)"
    by (rule toJSON_members)
  from flat have "JSON_parse (JSON_stringify (JObj ms)) = Some (JObj ms)"
    by (rule JSON_parse_flat)
  then show ?thesis by (simp only: toBuffer_def ms)
qed

lemma new_CommercialPaper_toJSON:
  "toJSON p = JObj obj \<Longrightarrow> new_CommercialPaper obj = Inr p"
  by (cases p; cases "currentState p"; cases "owner p")
     (auto simp add: toJSON_def new_CommercialPaper_def member_def bindE_def required_string_def
        required_number_def optional_string_def optional_state_def createInstance_def)

lemma deserialize_toBuffer:
  assumes "paper_class p = getClass"
  shows "deserialize (toBuffer p) = Inr p"
proof -
  obtain obj where obj: "toJSON p = JObj obj"
    by (rule toJSON_members)
  then have tag: "member obj ''class'' = Some (JStr (paper_class p))"
    by (cases "currentState p"; cases "owner p") (auto simp add: toJSON_def member_def)
  from obj tag assms show ?thesis
    by (simp add: deserialize_def deserializeClass_def JSON_parse_toBuffer
          new_CommercialPaper_toJSON)
qed

lemma Buffer_from_toJSON: "Buffer_from (toJSON p) = Inl not_buffer_like"
  by (cases "currentState p"; cases "owner p")
     (simp_all add: toJSON_def Buffer_from_def member_def)

lemma fromBuffer_toBuffer: "fromBuffer (toBuffer p) = Inl not_buffer_like"
  by (simp add: fromBuffer_def JSON_parse_toBuffer Buffer_from_toJSON bindE_def)

lemma uint8_byte: "uint8 (Some (JNum (int (of_char c)))) = c"
  by (simp add: uint8_def)

lemma Buffer_from_toJSON_buffer: "Buffer_from (Buffer_toJSON b) = Inr b"
  by (simp add: Buffer_from_def Buffer_toJSON_def member_def uint8_byte comp_def)

lemma fromBuffer_buffer_text:
  "fromBuffer (JSON_stringify (Buffer_toJSON b)) = deserialize b"
proof -
  have "Buffer_toJSON b
          = JObj [(''type'', JStr ''Buffer''), (''data'', JArr (map JNum (map (\<lambda>c. int (of_char c)) b)))]"
    by (simp add: Buffer_toJSON_def comp_def)
  then have "JSON_parse (JSON_stringify (Buffer_toJSON b)) = Some (Buffer_toJSON b)"
    by (simp only: JSON_parse_buffer_text)
  then show ?thesis
    by (simp add: fromBuffer_def Buffer_from_toJSON_buffer bindE_def)
qed

lemma createInstance_new:
  "new_CommercialPaper
     [(''issuer'', JStr i), (''paperNumber'', JNum n), (''issueDateTime'', JStr idt),
      (''maturityDateTime'', JStr mdt), (''faceValue'', JNum fv)]
   = Inr (createInstance i n idt mdt fv)"
  by (simp add: new_CommercialPaper_def member_def bindE_def required_string_def
        required_number_def optional_string_def optional_state_def createInstance_def)

lemma deserialize_other_tag:
  assumes "paper_class p \<noteq> getClass"
  shows "deserialize (toBuffer p) = Inl (DecodeError ''the type tag is mismatched'')"
proof -
  obtain obj where obj: "toJSON p = JObj obj"
    by (rule toJSON_members)
  then have tag: "member obj ''class'' = Some (JStr (paper_class p))"
    by (cases "currentState p"; cases "owner p") (auto simp add: toJSON_def member_def)
  from obj tag assms show ?thesis
    by (simp add: deserialize_def deserializeClass_def JSON_parse_toBuffer)
qed

text \<open>
  C8 (round trip), as the code has it. For every paper that carries the commercial-paper
  type tag, \<open>toBuffer\<close> followed by \<open>deserialize\<close> gives back the paper, equal in all
  fields, the tag included. \<open>toBuffer\<close> followed by \<open>fromBuffer\<close> does not: \<open>fromBuffer\<close>
  hands the parsed object to \<open>Buffer.from\<close>, which throws a TypeError for a plain
  object. What \<open>fromBuffer\<close> decodes is the JSON text of the buffer, the object
  \<open>{type: 'Buffer', data: [...]}\<close> that \<open>JSON.stringify\<close> writes for a buffer.
\<close>

theorem serialize_roundtrip:
  assumes "paper_class p = getClass"
  shows "deserialize (toBuffer p) = Inr p
       \<and> fromBuffer (toBuffer p) = Inl not_buffer_like
       \<and> fromBuffer (JSON_stringify (Buffer_toJSON (toBuffer p))) = Inr p"
  using assms
  by (simp add: deserialize_toBuffer fromBuffer_toBuffer fromBuffer_buffer_text
        del: JSON_stringify.simps)

theorem serialize_roundtrip_witness:
  "paper_class (magneto_paper 1 ''MagnetoCorp'') = getClass
   \<and> deserialize (toBuffer (magneto_paper 1 ''MagnetoCorp''))
       = Inr (magneto_paper 1 ''MagnetoCorp'')
   \<and> fromBuffer (JSON_stringify (Buffer_toJSON (toBuffer (magneto_paper 1 ''MagnetoCorp''))))
       = Inr (magneto_paper 1 ''MagnetoCorp'')"
proof -
  have tag: "paper_class (magneto_paper 1 ''MagnetoCorp'') = getClass"
    by (simp add: magneto_paper_def createInstance_def)
  from serialize_roundtrip [OF tag] tag show ?thesis
    by blast
qed

text \<open>
  The round trip through \<open>fromBuffer\<close> fails on the paper of the spec's first scenario.
\<close>

theorem fromBuffer_toBuffer_counterexample:
  "fromBuffer (toBuffer (magneto_paper 1 ''MagnetoCorp''))
     = Inl (TypeError (''The first argument must be of type string or an instance of Buffer, ''
                       @ ''ArrayBuffer, or Array or an Array-like Object.''))
   \<and> fromBuffer (toBuffer (magneto_paper 1 ''MagnetoCorp''))
     \<noteq> Inr (magneto_paper 1 ''MagnetoCorp'')"
  by (simp add: fromBuffer_toBuffer not_buffer_like_def del: append.simps)

section \<open>The states a paper can reach\<close>

lemma invoke_written:
  assumes "paperList (snd (invoke x c)) k = Some p'"
  shows "paperList c k = Some p' \<or> currentState p' \<in> {Some 1, Some 2, Some 3, Some 4}"
proof (cases x)
  case (PurchaseCall i n no idt mdt fv)
  obtain r c' where res: "purchase c i n no idt mdt fv = (r, c')"
    by (cases "purchase c i n no idt mdt fv") auto
  from purchase_result [OF res] assms PurchaseCall res show ?thesis
    by (auto split: if_splits)
next
  case (AdvanceCall a i n co no amt dt)
  obtain r c' where res: "advance a c i n co no amt dt = (r, c')"
    by (cases "advance a c i n co no amt dt") auto
  from advance_result [OF res] assms AdvanceCall res show ?thesis
    by (auto split: if_splits)
qed

lemma run_states:
  assumes "\<forall>k p. paperList c k = Some p \<longrightarrow> currentState p \<in> {Some 1, Some 2, Some 3, Some 4}"
    and "paperList (run xs c) k = Some p"
  shows "currentState p \<in> {Some 1, Some 2, Some 3, Some 4}"
  using assms
proof (induction xs arbitrary: c)
  case Nil
  then show ?case by simp
next
  case (Cons x xs)
  have "\<forall>k p. paperList (snd (invoke x c)) k = Some p
          \<longrightarrow> currentState p \<in> {Some 1, Some 2, Some 3, Some 4}"
    using invoke_written [of x c] Cons.prems(1) by blast
  from Cons.IH [OF this] Cons.prems(2) show ?case by simp
qed

lemma missing_method_throws:
  assumes "a \<in> {EarlyPay, Acknowledge, Pay}"
  shows "advance a c i n co no amt dt =
           (Inl (case paperList c (paper_key i n) of
                   None \<Rightarrow> NotFound (paper_key i n)
                 | Some q \<Rightarrow>
                     if owner q \<noteq> Some co then not_owned_by i n co
                     else not_a_function
                       (if a = Pay then ''isAcknowledge''
                        else if a = EarlyPay \<and> currentState q = Some 4 then ''setEarlyPay''
                        else ''isEarlyPay'')),
            after_get c (paper_key i n))"
proof (cases "paperList c (paper_key i n)")
  case None
  then show ?thesis by (simp add: advance_absent)
next
  case (Some q)
  with assms show ?thesis by (auto simp add: advance_stored)
qed

text \<open>
  C10 (reachable states). Starting from the empty list, after any sequence of
  transactions every stored paper is at PURCHASE(1), INVOICE(2), ISSUE(3) or CONFIRM(4).
  On any list, a paper that a transaction stores is at one of these four states.
  \<open>earlyPay\<close>, \<open>acknowledge\<close> and \<open>pay\<close> never succeed: each throws after its
  \<open>getPaper\<close>, the only call it makes on the list; and when the paper is stored and
  owned by the caller, what it throws is the TypeError of the state method that the
  class does not have.
\<close>

theorem reachable_states:
  "(paperList (run xs initial_ctx) k = Some p
      \<longrightarrow> currentState p \<in> {Some 1, Some 2, Some 3, Some 4})
   \<and> (paperList (snd (invoke x c)) k = Some p'
      \<longrightarrow> paperList c k = Some p' \<or> currentState p' \<in> {Some 1, Some 2, Some 3, Some 4})
   \<and> (a \<in> {EarlyPay, Acknowledge, Pay}
      \<longrightarrow> (\<exists>e. advance a c i n currentOwner newOwner amount dt
                  = (Inl e, c\<lparr>ledger_calls := ledger_calls c @ [GetPaper (paper_key i n)]\<rparr>)))
   \<and> (a \<in> {EarlyPay, Acknowledge, Pay} \<and> paperList c (paper_key i n) = Some q
        \<and> owner q = Some currentOwner
      \<longrightarrow> fst (advance a c i n currentOwner newOwner amount dt)
            = Inl (not_a_function
                    (if a = Pay then ''isAcknowledge''
                     else if a = EarlyPay \<and> currentState q = Some 4 then ''setEarlyPay''
                     else ''isEarlyPay'')))"
proof (intro conjI impI)
  assume "paperList (run xs initial_ctx) k = Some p"
  moreover have "\<forall>k p. paperList initial_ctx k = Some p
                   \<longrightarrow> currentState p \<in> {Some 1, Some 2, Some 3, Some 4}"
    by (simp add: initial_ctx_def)
  ultimately show "currentState p \<in> {Some 1, Some 2, Some 3, Some 4}"
    by (rule run_states [rotated])
next
  assume "paperList (snd (invoke x c)) k = Some p'"
  then show "paperList c k = Some p' \<or> currentState p' \<in> {Some 1, Some 2, Some 3, Some 4}"
    by (rule invoke_written)
next
  assume "a \<in> {EarlyPay, Acknowledge, Pay}"
  then show "\<exists>e. advance a c i n currentOwner newOwner amount dt
                  = (Inl e, c\<lparr>ledger_calls := ledger_calls c @ [GetPaper (paper_key i n)]\<rparr>)"
    by (simp add: missing_method_throws)
next
  assume "a \<in> {EarlyPay, Acknowledge, Pay} \<and> paperList c (paper_key i n) = Some q
        \<and> owner q = Some currentOwner"
  then show "fst (advance a c i n currentOwner newOwner amount dt)
            = Inl (not_a_function
                    (if a = Pay then ''isAcknowledge''
                     else if a = EarlyPay \<and> currentState q = Some 4 then ''setEarlyPay''
                     else ''isEarlyPay''))"
    by (simp add: missing_method_throws)
qed


theorem reachable_states_witness:
  "paperList (run [magneto_purchase] initial_ctx) (paper_key ''MagnetoCorp'' 1)
       = Some (magneto_paper 1 ''MagnetoCorp'')
   \<and> currentState (magneto_paper 1 ''MagnetoCorp'') \<in> {Some 1, Some 2, Some 3, Some 4}
   \<and> paperList
         (snd (invoke
            (AdvanceCall EarlyPay ''MagnetoCorp'' 1 ''Hedgematic'' ''DigiBank'' 5000000 ''2020-06-04'')
            magneto_confirmed))
         (paper_key ''MagnetoCorp'' 1)
       = Some (magneto_paper 4 ''Hedgematic'')
   \<and> paperList magneto_confirmed (paper_key ''MagnetoCorp'' 1)
       = Some (magneto_paper 4 ''Hedgematic'')
   \<and> EarlyPay \<in> {EarlyPay, Acknowledge, Pay}
   \<and> owner (magneto_paper 4 ''Hedgematic'') = Some ''Hedgematic''
   \<and> fst (advance EarlyPay magneto_confirmed
            ''MagnetoCorp'' 1 ''Hedgematic'' ''DigiBank'' 5000000 ''2020-06-04'')
       = Inl (TypeError ''paper.setEarlyPay is not a function'')"
proof -
  have stored: "paperList magneto_confirmed (paper_key ''MagnetoCorp'' 1)
       = Some (magneto_paper 4 ''Hedgematic'')"
    by (simp add: magneto_confirmed_list)
  have after: "paperList
         (snd (invoke
            (AdvanceCall EarlyPay ''MagnetoCorp'' 1 ''Hedgematic'' ''DigiBank'' 5000000 ''2020-06-04'')
            magneto_confirmed))
         (paper_key ''MagnetoCorp'' 1)
       = Some (magneto_paper 4 ''Hedgematic'')"
    by (simp add: earlyPay_stored [OF stored] stored)
  from reachable_states [of "[magneto_purchase]" "paper_key ''MagnetoCorp'' 1"
      "magneto_paper 1 ''MagnetoCorp''"
      "AdvanceCall EarlyPay ''MagnetoCorp'' 1 ''Hedgematic'' ''DigiBank'' 5000000 ''2020-06-04''"
      magneto_confirmed "magneto_paper 4 ''Hedgematic''" EarlyPay
      "''MagnetoCorp''" 1 "''Hedgematic''" "''DigiBank''" 5000000 "''2020-06-04''"
      "magneto_paper 4 ''Hedgematic''"]
  show ?thesis
    using stored after run_magneto_purchase
    by (simp add: magneto_paper_simps not_a_function_def)
qed

section \<open>Transfer at the target state\<close>






end
